theory Spec2Isabelle
  imports Main "HOL-Library.Word"
begin

unbundle bit_operations_syntax

section \<open>Values exchanged between the page and the extractor\<close>

text \<open>
  Log messages reach the Python side as decoded JSON. A decoded JSON value is \<open>None\<close>, a
  \<open>bool\<close>, an \<open>int\<close>, a \<open>str\<close>, a \<open>list\<close> or a \<open>dict\<close> with string keys. Floating-point
  numbers are left out of the model. A dict is an association list read through
  \<open>map_of\<close>, so that only the mapping it denotes matters.
\<close>

datatype jv =
    JNull
  | JBool bool
  | JInt int
  | JStr string
  | JArr "jv list"
  | JObj "(string \<times> jv) list"

text \<open>
  Python's \<open>==\<close> on such values. \<open>bool\<close> is a subclass of \<open>int\<close>: \<open>True == 1\<close> and
  \<open>False == 0\<close>. Lists are equal when they have the same length and equal elements in
  order; dicts are equal when they have the same keys and equal values under each key.
\<close>

primrec py_eq :: "jv \<Rightarrow> jv \<Rightarrow> bool" where
  "py_eq JNull y = (case y of JNull \<Rightarrow> True | _ \<Rightarrow> False)"
| "py_eq (JBool a) y =
     (case y of JBool b \<Rightarrow> a = b | JInt j \<Rightarrow> (if a then 1 else 0) = j | _ \<Rightarrow> False)"
| "py_eq (JInt i) y =
     (case y of JBool b \<Rightarrow> i = (if b then 1 else 0) | JInt j \<Rightarrow> i = j | _ \<Rightarrow> False)"
| "py_eq (JStr s) y = (case y of JStr t \<Rightarrow> s = t | _ \<Rightarrow> False)"
| "py_eq (JArr xs) y =
     (case y of JArr ys \<Rightarrow> list_all2 (\<lambda>p y. p y) (map py_eq xs) ys | _ \<Rightarrow> False)"
| "py_eq (JObj a) y =
     (case y of
        JObj b \<Rightarrow>
          set (map fst a) = set (map fst b) \<and>
          (\<forall>k \<in> set (map fst b).
             case (map_of (map (map_prod id py_eq) a) k, map_of b k) of
               (Some p, Some w) \<Rightarrow> p w
             | _ \<Rightarrow> False)
      | _ \<Rightarrow> False)"

text \<open>\<open>x in xs\<close> for a list or tuple \<open>xs\<close>: some element compares equal to \<open>x\<close>.\<close>

definition py_in :: "jv \<Rightarrow> jv list \<Rightarrow> bool" where
  "py_in x xs = list_ex (\<lambda>e. py_eq e x) xs"

text \<open>No element of the list compares equal to a later one.\<close>

fun py_distinct :: "jv list \<Rightarrow> bool" where
  "py_distinct [] = True"
| "py_distinct (x # xs) = (\<not> py_in x xs \<and> py_distinct xs)"

datatype error =
    KeyError
  | TypeError
  | ValueError
  | BinasciiError
  | AttributeError
  | UnboundLocalError

text \<open>\<open>binascii.Error\<close> is a subclass of \<open>ValueError\<close>; \<open>except ValueError\<close> catches both.\<close>

fun is_ValueError :: "error \<Rightarrow> bool" where
  "is_ValueError ValueError = True"
| "is_ValueError BinasciiError = True"
| "is_ValueError _ = False"

text \<open>A log message is a dict; \<open>message[k]\<close> raises \<open>KeyError\<close> on a missing key.\<close>

type_synonym message = "string \<rightharpoonup> jv"

definition getitem :: "message \<Rightarrow> string \<Rightarrow> error + jv" where
  "getitem m k = (case m k of None \<Rightarrow> Inl KeyError | Some v \<Rightarrow> Inr v)"

text \<open>\<open>call[k]\<close> on a stored value: a dict is looked up, anything else cannot be indexed by
  a string.\<close>

fun subscript :: "jv \<Rightarrow> string \<Rightarrow> error + jv" where
  "subscript (JObj kvs) k = (case map_of kvs k of None \<Rightarrow> Inl KeyError | Some v \<Rightarrow> Inr v)"
| "subscript _ k = Inl TypeError"

section \<open>Strings and base64\<close>

text \<open>\<open>s.split(',', 1)\<close>: one part when there is no comma, else the text before the first
  comma and the text after it.\<close>

definition split_comma :: "string \<Rightarrow> string list" where
  "split_comma s =
     (if CHR '','' \<in> set s
      then [takeWhile (\<lambda>c. c \<noteq> CHR '','') s, tl (dropWhile (\<lambda>c. c \<noteq> CHR '','') s)]
      else [s])"

text \<open>\<open>sub in s\<close> for strings: \<open>sub\<close> occurs in \<open>s\<close> as a contiguous substring.\<close>

fun str_contains :: "string \<Rightarrow> string \<Rightarrow> bool" where
  "str_contains sub [] = (sub = [])"
| "str_contains sub (c # cs) = (take (length sub) (c # cs) = sub \<or> str_contains sub cs)"

type_synonym byte = "8 word"

text \<open>The base64 alphabet: the 6-bit value of a character, if it has one.\<close>

definition b64_value :: "char \<Rightarrow> byte option" where
  "b64_value c =
     (let n = (of_char c :: nat) in
      if 65 \<le> n \<and> n \<le> 90 then Some (of_nat (n - 65))
      else if 97 \<le> n \<and> n \<le> 122 then Some (of_nat (n - 71))
      else if 48 \<le> n \<and> n \<le> 57 then Some (of_nat (n + 4))
      else if c = CHR ''+'' then Some 62
      else if c = CHR ''/'' then Some 63
      else None)"

text \<open>
  The library decoder behind \<open>base64.b64decode(s)\<close> (\<open>binascii.a2b_base64\<close>, not in strict
  mode): characters outside the alphabet are skipped, decoding stops at a pad that
  completes the current quad, and data that ends inside a quad is an error.
\<close>

fun a2b_base64 :: "string \<Rightarrow> nat \<Rightarrow> byte \<Rightarrow> nat \<Rightarrow> byte list \<Rightarrow> error + byte list" where
  "a2b_base64 [] quad_pos leftchar pads out =
     (if quad_pos \<noteq> 0 then Inl BinasciiError else Inr out)"
| "a2b_base64 (c # cs) quad_pos leftchar pads out =
     (if c = CHR ''='' then
        (if quad_pos \<ge> 2 \<and> quad_pos + (pads + 1) \<ge> 4 then Inr out
         else a2b_base64 cs quad_pos leftchar (if quad_pos \<ge> 2 then pads + 1 else pads) out)
      else
        (case b64_value c of
           None \<Rightarrow> a2b_base64 cs quad_pos leftchar pads out
         | Some v \<Rightarrow>
             (if quad_pos = 0 then a2b_base64 cs 1 v 0 out
              else if quad_pos = 1 then
                a2b_base64 cs 2 (v AND 15) 0 (out @ [push_bit 2 leftchar OR drop_bit 4 v])
              else if quad_pos = 2 then
                a2b_base64 cs 3 (v AND 3) 0 (out @ [push_bit 4 leftchar OR drop_bit 2 v])
              else
                a2b_base64 cs 0 0 0 (out @ [push_bit 6 leftchar OR v]))))"

text \<open>\<open>base64.b64decode\<close> of a \<open>str\<close>: the string must be ASCII, then it is decoded.\<close>

definition b64decode :: "string \<Rightarrow> error + byte list" where
  "b64decode s =
     (if \<exists>c \<in> set s. (of_char c :: nat) \<ge> 128 then Inl ValueError
      else a2b_base64 s 0 0 0 [])"

section \<open>The extractor's state\<close>

text \<open>
  One dict per category: \<open>{'calls': [], 'is_fingerprinting': False}\<close>, to which
  finalization may add the key \<open>'call_stack'\<close> (\<open>None\<close> here while the key is absent).
\<close>

record category =
  calls :: "jv list"
  is_fingerprinting :: bool
  call_stack :: "jv list option"

text \<open>
  \<open>result['fingerprinting']\<close> holds the four category dicts themselves, not copies, so a
  later change to a category shows in the result. The result stores which object sits
  under each key; reading the result goes through the extractor's fields.
\<close>

datatype cat_ref = RCanvas | RAudio | RWebgl | RMisc

record extractor =
  canvas :: category
  audio :: category
  webgl :: category
  misc :: category
  canvas_call_stack :: "jv list option"
  audio_call_stack :: "jv list option"
  webgl_call_stack :: "jv list option"
  misc_call_stack :: "jv list option"
  canvas_image :: "jv option"
  result_fingerprinting :: "(string \<rightharpoonup> cat_ref) option"
  result_files :: "(string \<times> byte list) list"

text \<open>\<open>__init__\<close>; the files already held by the scan result are a parameter.\<close>

definition init :: "(string \<times> byte list) list \<Rightarrow> extractor" where
  "init files =
     \<lparr> canvas = \<lparr>calls = [], is_fingerprinting = False, call_stack = None\<rparr>,
       audio = \<lparr>calls = [], is_fingerprinting = False, call_stack = None\<rparr>,
       webgl = \<lparr>calls = [], is_fingerprinting = False, call_stack = None\<rparr>,
       misc = \<lparr>calls = [], is_fingerprinting = False, call_stack = None\<rparr>,
       canvas_call_stack = None,
       audio_call_stack = None,
       webgl_call_stack = None,
       misc_call_stack = None,
       canvas_image = None,
       result_fingerprinting = None,
       result_files = files \<rparr>"

fun deref :: "extractor \<Rightarrow> cat_ref \<Rightarrow> category" where
  "deref st RCanvas = canvas st"
| "deref st RAudio = audio st"
| "deref st RWebgl = webgl st"
| "deref st RMisc = misc st"

text \<open>\<open>result['fingerprinting'][key]\<close>, when both keys are there.\<close>

definition result_category :: "extractor \<Rightarrow> string \<Rightarrow> category option" where
  "result_category st key =
     (case result_fingerprinting st of
        None \<Rightarrow> None
      | Some d \<Rightarrow> map_option (deref st) (d key))"

text \<open>
  Modelled from the spec: \<open>result.add_file\<close> belongs to the scan result class, which is
  not among the sources; the spec says the decoded bytes are persisted "as a binary
  artifact associated with the scan" under the name given. The artifact is recorded as a
  named entry of the result's files.
\<close>

definition add_file :: "string \<Rightarrow> byte list \<Rightarrow> extractor \<Rightarrow> extractor" where
  "add_file name content st = st\<lparr>result_files := result_files st @ [(name, content)]\<rparr>"

text \<open>
  A method either returns or raises. Fields assigned before a raise stay assigned, so a
  method yields the exception, if any, together with the state it leaves behind.
\<close>

type_synonym outcome = "error option \<times> extractor"

section \<open>Receiving log events\<close>

definition calldict :: "jv \<Rightarrow> jv \<Rightarrow> jv" where
  "calldict name arguments = JObj [(''method'', name), (''arguments'', arguments)]"

definition propdict :: "jv \<Rightarrow> jv \<Rightarrow> jv" where
  "propdict name val = JObj [(''property'', name), (''value'', val)]"

definition receive_canvas_log :: "message \<Rightarrow> jv list \<Rightarrow> extractor \<Rightarrow> outcome" where
  "receive_canvas_log message cs st =
     (case getitem message ''name'' of
        Inl e \<Rightarrow> (Some e, st)
      | Inr name \<Rightarrow>
     (case getitem message ''arguments'' of
        Inl e \<Rightarrow> (Some e, st)
      | Inr arguments \<Rightarrow>
          let st1 = st\<lparr>canvas := (canvas st)\<lparr>calls := calls (canvas st) @ [calldict name arguments]\<rparr>\<rparr>
          in if py_eq name (JStr ''HTMLCanvasElement.toDataURL'') then
               let st2 = st1\<lparr>canvas_call_stack := Some (drop 1 cs)\<rparr>
               in (case getitem message ''retval'' of
                     Inl e \<Rightarrow> (Some e, st2)
                   | Inr retval \<Rightarrow> (None, st2\<lparr>canvas_image := Some retval\<rparr>))
             else (None, st1)))"

definition receive_audio_log :: "message \<Rightarrow> jv list \<Rightarrow> extractor \<Rightarrow> outcome" where
  "receive_audio_log message cs st =
     (case getitem message ''name'' of
        Inl e \<Rightarrow> (Some e, st)
      | Inr name \<Rightarrow>
     (case getitem message ''arguments'' of
        Inl e \<Rightarrow> (Some e, st)
      | Inr arguments \<Rightarrow>
          let d = calldict name arguments
          in if \<not> py_in d (calls (audio st))
             then (None, st\<lparr>audio := (audio st)\<lparr>calls := calls (audio st) @ [d]\<rparr>\<rparr>)
             else (None, st)))"

definition receive_webgl_log :: "message \<Rightarrow> jv list \<Rightarrow> extractor \<Rightarrow> outcome" where
  "receive_webgl_log message cs st =
     (case getitem message ''name'' of
        Inl e \<Rightarrow> (Some e, st)
      | Inr name \<Rightarrow>
     (case getitem message ''arguments'' of
        Inl e \<Rightarrow> (Some e, st)
      | Inr arguments \<Rightarrow>
          let d = calldict name arguments
          in if \<not> py_in d (calls (webgl st))
             then (None, st\<lparr>webgl := (webgl st)\<lparr>calls := calls (webgl st) @ [d]\<rparr>\<rparr>)
             else (None, st)))"

definition listofcheckedproperties :: "jv list" where
  "listofcheckedproperties =
     [JStr ''userAgent'', JStr ''language'', JStr ''languages'', JStr ''colorDepth'']"

text \<open>
  The first half of \<open>_receive_misc_log\<close>: which dict \<open>calldict\<close> is bound to. When neither
  branch is taken the local stays unbound, and reading it raises \<open>UnboundLocalError\<close>.
\<close>

definition misc_calldict :: "message \<Rightarrow> error + jv" where
  "misc_calldict message =
     (case getitem message ''name'' of
        Inl e \<Rightarrow> Inl e
      | Inr name \<Rightarrow>
          if py_in name listofcheckedproperties then
            (case getitem message ''value'' of
               Inl e \<Rightarrow> Inl e
             | Inr val \<Rightarrow> Inr (propdict name val))
          else if ''arguments'' \<in> dom message then
            (case getitem message ''name'' of
               Inl e \<Rightarrow> Inl e
             | Inr name' \<Rightarrow>
            (case getitem message ''arguments'' of
               Inl e \<Rightarrow> Inl e
             | Inr arguments \<Rightarrow> Inr (calldict name' arguments)))
          else Inl UnboundLocalError)"

definition receive_misc_log :: "message \<Rightarrow> jv list \<Rightarrow> extractor \<Rightarrow> outcome" where
  "receive_misc_log message cs st =
     (case misc_calldict message of
        Inl e \<Rightarrow> (Some e, st)
      | Inr d \<Rightarrow>
          if \<not> py_in d (calls (misc st))
          then (None, st\<lparr>misc := (misc st)\<lparr>calls := calls (misc st) @ [d]\<rparr>\<rparr>)
          else (None, st))"

text \<open>Four \<open>if\<close> statements in a row; an exception in one skips the rest.\<close>

definition receive_log :: "string \<Rightarrow> message \<Rightarrow> jv list \<Rightarrow> extractor \<Rightarrow> outcome" where
  "receive_log log_type message cs st =
     (case (if log_type = ''fingerprinting:canvas''
            then receive_canvas_log message cs st else (None, st)) of
        (Some e, st1) \<Rightarrow> (Some e, st1)
      | (None, st1) \<Rightarrow>
     (case (if log_type = ''fingerprinting:audio''
            then receive_audio_log message cs st1 else (None, st1)) of
        (Some e, st2) \<Rightarrow> (Some e, st2)
      | (None, st2) \<Rightarrow>
     (case (if log_type = ''fingerprinting:webgl''
            then receive_webgl_log message cs st2 else (None, st2)) of
        (Some e, st3) \<Rightarrow> (Some e, st3)
      | (None, st3) \<Rightarrow>
          (if log_type = ''fingerprinting:misc''
           then receive_misc_log message cs st3 else (None, st3)))))"

section \<open>Finalization\<close>

definition text_methods :: "jv list" where
  "text_methods =
     [JStr ''CanvasRenderingContext2D.fillText'', JStr ''CanvasRenderingContext2D.strokeText'']"

text \<open>The loop that sets \<open>uses_text\<close> and breaks at the first text-drawing call.\<close>

fun uses_text_loop :: "jv list \<Rightarrow> error + bool" where
  "uses_text_loop [] = Inr False"
| "uses_text_loop (call # rest) =
     (case subscript call ''method'' of
        Inl e \<Rightarrow> Inl e
      | Inr m \<Rightarrow> if py_in m text_methods then Inr True else uses_text_loop rest)"

text \<open>
  The body of the \<open>try\<close>: unpacking the split into two names raises \<open>ValueError\<close> unless
  there are exactly two parts. The value is what \<open>content\<close> is bound to (\<open>None\<close> when the
  header has no \<open>base64\<close>).
\<close>

definition try_decode :: "string \<Rightarrow> error + byte list option" where
  "try_decode data_url =
     (case split_comma data_url of
        [info_part, data_part] \<Rightarrow>
          if str_contains ''base64'' info_part then
            (case b64decode data_part of
               Inl e \<Rightarrow> Inl e
             | Inr bs \<Rightarrow> Inr (Some bs))
          else Inr None
      | _ \<Rightarrow> Inl ValueError)"

text \<open>The three trailing \<open>if\<close> statements of \<open>_extract_canvas\<close>.\<close>

definition extract_others :: "extractor \<Rightarrow> extractor" where
  "extract_others st =
     (let st1 = (case audio_call_stack st of
                   None \<Rightarrow> st
                 | Some cs \<Rightarrow> st\<lparr>audio := (audio st)\<lparr>is_fingerprinting := True, call_stack := Some cs\<rparr>\<rparr>);
          st2 = (case webgl_call_stack st1 of
                   None \<Rightarrow> st1
                 | Some cs \<Rightarrow> st1\<lparr>webgl := (webgl st1)\<lparr>is_fingerprinting := True, call_stack := Some cs\<rparr>\<rparr>);
          st3 = (case misc_call_stack st2 of
                   None \<Rightarrow> st2
                 | Some cs \<Rightarrow> st2\<lparr>misc := (misc st2)\<lparr>is_fingerprinting := True, call_stack := Some cs\<rparr>\<rparr>)
      in st3)"

definition extract_canvas :: "extractor \<Rightarrow> outcome" where
  "extract_canvas st =
     (case uses_text_loop (calls (canvas st)) of
        Inl e \<Rightarrow> (Some e, st)
      | Inr uses_text \<Rightarrow>
          (case (if uses_text then canvas_call_stack st else None) of
             None \<Rightarrow> (None, extract_others st)
           | Some cs \<Rightarrow>
               let st1 = st\<lparr>canvas := (canvas st)\<lparr>is_fingerprinting := True, call_stack := Some cs\<rparr>\<rparr>
               in (case canvas_image st1 of
                     Some (JStr data_url) \<Rightarrow>
                       (case try_decode data_url of
                          Inl e \<Rightarrow>
                            if is_ValueError e then (None, extract_others st1)
                            else (Some e, st1)
                        | Inr content \<Rightarrow>
                            (case content of
                               None \<Rightarrow> (None, extract_others st1)
                             | Some bs \<Rightarrow>
                                 if bs \<noteq> []
                                 then (None, extract_others (add_file ''fingerprinting_canvas'' bs st1))
                                 else (None, extract_others st1)))
                   | _ \<Rightarrow> (Some AttributeError, st1))))"

definition extract_information :: "extractor \<Rightarrow> outcome" where
  "extract_information st =
     extract_canvas
       (st\<lparr>result_fingerprinting :=
             Some [''canvas'' \<mapsto> RCanvas, ''audio'' \<mapsto> RAudio,
                   ''webgl'' \<mapsto> RWebgl, ''misc'' \<mapsto> RMisc]\<rparr>)"

section \<open>A scan: events, then finalization\<close>

type_synonym event = "string \<times> message \<times> jv list"

text \<open>
  The driver that calls \<open>receive_log\<close> is not part of these sources. Events are delivered
  one after another; whatever an event that raised has already assigned stays, and the
  next event is processed on that state.
\<close>

fun deliver :: "event list \<Rightarrow> extractor \<Rightarrow> extractor" where
  "deliver [] st = st"
| "deliver ((log_type, message, cs) # evs) st =
     deliver evs (snd (receive_log log_type message cs st))"

definition scan :: "event list \<Rightarrow> (string \<times> byte list) list \<Rightarrow> outcome" where
  "scan evs files = extract_information (deliver evs (init files))"

section \<open>The in-page instrumentation\<close>

text \<open>
  A JavaScript value is \<open>undefined\<close> or a proper value. A function takes its receiver
  (\<open>this\<close>) and its arguments, may change the page, and returns a value. The page-side
  \<open>log\<close> function is supplied by the driver that injects the script; it is a parameter.
\<close>

datatype js_value = Undefined | Value jv

datatype log_message =
    FunctionMessage string "js_value list" js_value
  | PropertyMessage string js_value string

type_synonym ('t, 'w) js_function = "'t \<Rightarrow> js_value list \<Rightarrow> 'w \<Rightarrow> js_value \<times> 'w"

text \<open>The closure has no \<open>return\<close> statement: its value is \<open>undefined\<close>.\<close>

definition instrumentFunction ::
  "(string \<Rightarrow> log_message \<Rightarrow> 'w \<Rightarrow> 'w) \<Rightarrow> ('t, 'w) js_function \<Rightarrow> string \<Rightarrow> string
     \<Rightarrow> ('t, 'w) js_function" where
  "instrumentFunction log func name log_type =
     (\<lambda>this arguments w.
        let (retval, w1) = func this arguments w;
            w2 = log log_type (FunctionMessage name arguments retval) w1
        in (Undefined, w2))"

text \<open>The getter installed by \<open>instrumentProperty\<close>, which does return the value.\<close>

definition instrumentProperty_get ::
  "(string \<Rightarrow> log_message \<Rightarrow> 'w \<Rightarrow> 'w) \<Rightarrow> ('t, 'w) js_function \<Rightarrow> string \<Rightarrow> string
     \<Rightarrow> ('t, 'w) js_function" where
  "instrumentProperty_get log origGetter name log_type =
     (\<lambda>this arguments w.
        let (val, w1) = origGetter this arguments w;
            w2 = log log_type (PropertyMessage name val ''get'') w1
        in (val, w2))"

section \<open>Python equality is an equivalence\<close>

lemma py_eq_JArr: "py_eq (JArr xs) (JArr ys) = list_all2 py_eq xs ys"
  by (simp add: list_all2_map1)

lemma map_of_map_prod: "map_of (map (map_prod id f) a) k = map_option f (map_of a k)"
  by (induction a) auto

lemma py_eq_JObj:
  "py_eq (JObj a) (JObj b) =
     (set (map fst a) = set (map fst b) \<and>
      (\<forall>k \<in> set (map fst b). \<exists>v w. map_of a k = Some v \<and> map_of b k = Some w \<and> py_eq v w))"
proof -
  have dom: "\<exists>w. map_of c k = Some w" if "k \<in> fst ` set c" for k and c :: "(string \<times> jv) list"
    using that by (metis map_of_eq_None_iff not_Some_eq)
  show ?thesis
    apply (simp add: map_of_map_prod)
    apply (rule conj_cong[OF refl])
    apply (rule ball_cong[OF refl])
    subgoal for k using dom[of "fst k" a] dom[of "fst k" b] by (auto split: option.splits)
    done
qed

lemma map_of_in_snds: "map_of a k = Some v \<Longrightarrow> \<exists>x \<in> set a. v \<in> Basic_BNFs.snds x"
  by (induction a) (auto split: if_splits)

lemma py_eq_refl: "py_eq v v"
proof (induction v)
  case (JArr xs)
  then show ?case unfolding py_eq_JArr by (simp add: list_all2_same)
next
  case (JObj a)
  have "\<exists>v. map_of a k = Some v \<and> py_eq v v" if "k \<in> set (map fst a)" for k
  proof -
    from that obtain v where v: "map_of a k = Some v"
      by (metis map_of_eq_None_iff not_Some_eq set_map)
    with JObj map_of_in_snds[OF v] show ?thesis by blast
  qed
  then show ?case unfolding py_eq_JObj by blast
qed simp_all

lemma py_eq_sym: "py_eq v w \<Longrightarrow> py_eq w v"
proof (induction v arbitrary: w)
  case (JArr xs)
  then obtain ys where w: "w = JArr ys" by (cases w) auto
  from JArr.prems have "list_all2 py_eq xs ys" unfolding w py_eq_JArr .
  then have "list_all2 py_eq ys xs"
    using JArr.IH by (induction rule: list_all2_induct) auto
  then show ?case unfolding w py_eq_JArr .
next
  case (JObj a)
  then obtain b where w: "w = JObj b" by (cases w) auto
  note h = JObj.prems[unfolded w py_eq_JObj]
  have "\<exists>x y. map_of b k = Some x \<and> map_of a k = Some y \<and> py_eq x y"
    if "k \<in> set (map fst a)" for k
  proof -
    from h that obtain v u where vu: "map_of a k = Some v" "map_of b k = Some u" "py_eq v u"
      by blast
    from map_of_in_snds[OF vu(1)] JObj.IH vu(3) have "py_eq u v" by blast
    with vu show ?thesis by blast
  qed
  with h show ?case unfolding w py_eq_JObj by blast
qed (auto split: jv.splits if_splits)

lemma py_eq_trans: "py_eq u v \<Longrightarrow> py_eq v w \<Longrightarrow> py_eq u w"
proof (induction u arbitrary: v w)
  case (JArr xs)
  then obtain ys where v: "v = JArr ys" by (cases v) auto
  with JArr.prems obtain zs where w: "w = JArr zs" by (cases w) auto
  from JArr.prems have "list_all2 py_eq xs ys" "list_all2 py_eq ys zs"
    unfolding v w py_eq_JArr by auto
  then have "list_all2 py_eq xs zs"
    using JArr.IH unfolding list_all2_conv_all_nth by (metis nth_mem)
  then show ?case unfolding w py_eq_JArr .
next
  case (JObj a)
  then obtain b where v: "v = JObj b" by (cases v) auto
  with JObj.prems obtain c where w: "w = JObj c" by (cases w) auto
  note h1 = JObj.prems(1)[unfolded v py_eq_JObj]
  note h2 = JObj.prems(2)[unfolded v w py_eq_JObj]
  have "\<exists>x z. map_of a k = Some x \<and> map_of c k = Some z \<and> py_eq x z"
    if "k \<in> set (map fst c)" for k
  proof -
    from h2 that obtain y z where yz: "map_of b k = Some y" "map_of c k = Some z" "py_eq y z"
      by blast
    from h1 h2 that obtain x y' where xy: "map_of a k = Some x" "map_of b k = Some y'" "py_eq x y'"
      by blast
    with yz have "py_eq x y" by simp
    with map_of_in_snds[OF xy(1)] JObj.IH yz(3) have "py_eq x z" by blast
    with xy yz show ?thesis by blast
  qed
  with h1 h2 show ?case unfolding w py_eq_JObj by blast
qed (auto split: jv.splits if_splits)

section \<open>What each handler changes\<close>


lemma py_eq_JStr_right: "py_eq v (JStr s) = (v = JStr s)"
  by (cases v) auto

lemma py_eq_JStr_left: "py_eq (JStr s) v = (v = JStr s)"
  by (cases v) auto

lemma py_in_text_methods: "py_in n text_methods = (n \<in> set text_methods)"
  by (auto simp: py_in_def text_methods_def split: jv.splits)

lemma py_in_checked: "py_in n listofcheckedproperties = (n \<in> set listofcheckedproperties)"
  by (auto simp: py_in_def listofcheckedproperties_def split: jv.splits)

lemma receive_log_cases:
  "receive_log log_type message cs st =
     (if log_type = ''fingerprinting:canvas'' then receive_canvas_log message cs st
      else if log_type = ''fingerprinting:audio'' then receive_audio_log message cs st
      else if log_type = ''fingerprinting:webgl'' then receive_webgl_log message cs st
      else if log_type = ''fingerprinting:misc'' then receive_misc_log message cs st
      else (None, st))"
proof -
  have chain: "(case r of (Some e, s) \<Rightarrow> (Some e, s) | (None, s) \<Rightarrow> (None, s)) = r"
    for r :: outcome
    by (cases r) (auto split: option.splits)
  show ?thesis
    unfolding receive_log_def by (auto simp: chain split: prod.splits option.splits)
qed

lemma receive_audio_log_state:
  "\<exists>xs. snd (receive_audio_log m cs st) = st\<lparr>audio := (audio st)\<lparr>calls := xs\<rparr>\<rparr>"
proof (cases "receive_audio_log m cs st = (None, st\<lparr>audio := (audio st)\<lparr>calls := calls (audio st) @ [calldict (the (m ''name'')) (the (m ''arguments''))]\<rparr>\<rparr>)")
  case True
  then show ?thesis by (metis snd_conv)
next
  case False
  then have "snd (receive_audio_log m cs st) = st"
    by (auto simp: receive_audio_log_def getitem_def Let_def split: option.splits)
  then have "snd (receive_audio_log m cs st) = st\<lparr>audio := (audio st)\<lparr>calls := calls (audio st)\<rparr>\<rparr>"
    by simp
  then show ?thesis by blast
qed

lemma receive_webgl_log_state:
  "\<exists>xs. snd (receive_webgl_log m cs st) = st\<lparr>webgl := (webgl st)\<lparr>calls := xs\<rparr>\<rparr>"
proof (cases "receive_webgl_log m cs st = (None, st\<lparr>webgl := (webgl st)\<lparr>calls := calls (webgl st) @ [calldict (the (m ''name'')) (the (m ''arguments''))]\<rparr>\<rparr>)")
  case True
  then show ?thesis by (metis snd_conv)
next
  case False
  then have "snd (receive_webgl_log m cs st) = st"
    by (auto simp: receive_webgl_log_def getitem_def Let_def split: option.splits)
  then have "snd (receive_webgl_log m cs st) = st\<lparr>webgl := (webgl st)\<lparr>calls := calls (webgl st)\<rparr>\<rparr>"
    by simp
  then show ?thesis by blast
qed

lemma receive_misc_log_state:
  "\<exists>xs. snd (receive_misc_log m cs st) = st\<lparr>misc := (misc st)\<lparr>calls := xs\<rparr>\<rparr>"
proof (cases "misc_calldict m")
  case (Inl e)
  then have "snd (receive_misc_log m cs st) = st\<lparr>misc := (misc st)\<lparr>calls := calls (misc st)\<rparr>\<rparr>"
    by (simp add: receive_misc_log_def)
  then show ?thesis by blast
next
  case (Inr d)
  show ?thesis
  proof (cases "py_in d (calls (misc st))")
    case True
    with Inr have "snd (receive_misc_log m cs st) = st\<lparr>misc := (misc st)\<lparr>calls := calls (misc st)\<rparr>\<rparr>"
      by (simp add: receive_misc_log_def)
    then show ?thesis by blast
  next
    case False
    with Inr show ?thesis by (simp add: receive_misc_log_def) blast
  qed
qed

lemma receive_canvas_log_state:
  "\<exists>xs s i. snd (receive_canvas_log m cs st) =
      st\<lparr>canvas := (canvas st)\<lparr>calls := xs\<rparr>, canvas_call_stack := s, canvas_image := i\<rparr>"
proof -
  have triv: "st = st\<lparr>canvas := (canvas st)\<lparr>calls := calls (canvas st)\<rparr>,
                      canvas_call_stack := canvas_call_stack st, canvas_image := canvas_image st\<rparr>"
    by simp
  have upd: "st\<lparr>canvas := c\<rparr> = st\<lparr>canvas := c, canvas_call_stack := canvas_call_stack st, canvas_image := canvas_image st\<rparr>" for c
    by simp
  have upd2: "st\<lparr>canvas := c, canvas_call_stack := s\<rparr> = st\<lparr>canvas := c, canvas_call_stack := s, canvas_image := canvas_image st\<rparr>" for c s
    by simp
  show ?thesis
    unfolding receive_canvas_log_def getitem_def Let_def
    apply (cases "m ''name''"; cases "m ''arguments''"; cases "m ''retval''"; simp)
    using triv upd upd2 by blast+
qed

lemma receive_canvas_log_calls:
  "calls (canvas (snd (receive_canvas_log m cs st))) =
     calls (canvas st) @
       (case m ''name'' of None \<Rightarrow> [] | Some n \<Rightarrow>
          (case m ''arguments'' of None \<Rightarrow> [] | Some a \<Rightarrow> [calldict n a]))"
  by (auto simp: receive_canvas_log_def getitem_def Let_def split: option.splits)

section \<open>Sequences of events\<close>

lemma deliver_append: "deliver (xs @ ys) st = deliver ys (deliver xs st)"
  by (induction xs arbitrary: st) auto

lemma receive_log_canvas_calls:
  "calls (canvas (snd (receive_log lt m cs st))) =
     calls (canvas st) @
       (if lt = ''fingerprinting:canvas'' then
          (case m ''name'' of None \<Rightarrow> [] | Some n \<Rightarrow>
             (case m ''arguments'' of None \<Rightarrow> [] | Some a \<Rightarrow> [calldict n a]))
        else [])"
proof -
  obtain xa where a: "snd (receive_audio_log m cs st) = st\<lparr>audio := (audio st)\<lparr>calls := xa\<rparr>\<rparr>"
    using receive_audio_log_state by blast
  obtain xw where w: "snd (receive_webgl_log m cs st) = st\<lparr>webgl := (webgl st)\<lparr>calls := xw\<rparr>\<rparr>"
    using receive_webgl_log_state by blast
  obtain xm where mi: "snd (receive_misc_log m cs st) = st\<lparr>misc := (misc st)\<lparr>calls := xm\<rparr>\<rparr>"
    using receive_misc_log_state by blast
  show ?thesis
    by (simp add: receive_log_cases receive_canvas_log_calls a w mi)
qed

lemma deliver_canvas_calls:
  "calls (canvas (deliver evs st)) =
     calls (canvas st) @
       concat (map (\<lambda>(lt, m, cs).
          if lt = ''fingerprinting:canvas'' then
            (case m ''name'' of None \<Rightarrow> [] | Some n \<Rightarrow>
               (case m ''arguments'' of None \<Rightarrow> [] | Some a \<Rightarrow> [calldict n a]))
          else []) evs)"
proof (induction evs arbitrary: st)
  case Nil
  show ?case by simp
next
  case (Cons ev evs)
  obtain lt m cs where ev: "ev = (lt, m, cs)" by (cases ev)
  show ?case
    unfolding ev by (simp add: Cons.IH receive_log_canvas_calls)
qed

lemma receive_log_keeps_export:
  assumes "lt = ''fingerprinting:canvas'' \<longrightarrow> m ''name'' \<noteq> Some (JStr ''HTMLCanvasElement.toDataURL'')"
  shows "canvas_image (snd (receive_log lt m cs st)) = canvas_image st"
    and "canvas_call_stack (snd (receive_log lt m cs st)) = canvas_call_stack st"
proof -
  obtain xa where a: "snd (receive_audio_log m cs st) = st\<lparr>audio := (audio st)\<lparr>calls := xa\<rparr>\<rparr>"
    using receive_audio_log_state by blast
  obtain xw where w: "snd (receive_webgl_log m cs st) = st\<lparr>webgl := (webgl st)\<lparr>calls := xw\<rparr>\<rparr>"
    using receive_webgl_log_state by blast
  obtain xm where mi: "snd (receive_misc_log m cs st) = st\<lparr>misc := (misc st)\<lparr>calls := xm\<rparr>\<rparr>"
    using receive_misc_log_state by blast
  have c: "canvas_image (snd (receive_canvas_log m cs st)) = canvas_image st \<and>
           canvas_call_stack (snd (receive_canvas_log m cs st)) = canvas_call_stack st"
    if "m ''name'' \<noteq> Some (JStr ''HTMLCanvasElement.toDataURL'')"
    using that
    by (auto simp: receive_canvas_log_def getitem_def Let_def py_eq_JStr_right
          simp del: py_eq.simps split: option.splits)
  show "canvas_image (snd (receive_log lt m cs st)) = canvas_image st"
    using assms c by (simp add: receive_log_cases a w mi)
  show "canvas_call_stack (snd (receive_log lt m cs st)) = canvas_call_stack st"
    using assms c by (simp add: receive_log_cases a w mi)
qed

lemma deliver_keeps_export:
  assumes "\<forall>(lt, m, cs) \<in> set evs.
             lt = ''fingerprinting:canvas'' \<longrightarrow> m ''name'' \<noteq> Some (JStr ''HTMLCanvasElement.toDataURL'')"
  shows "canvas_image (deliver evs st) = canvas_image st \<and>
         canvas_call_stack (deliver evs st) = canvas_call_stack st"
  using assms
proof (induction evs arbitrary: st)
  case Nil
  show ?case by simp
next
  case (Cons ev evs)
  obtain lt m cs where ev: "ev = (lt, m, cs)" by (cases ev)
  from Cons.prems have h: "lt = ''fingerprinting:canvas'' \<longrightarrow> m ''name'' \<noteq> Some (JStr ''HTMLCanvasElement.toDataURL'')"
    unfolding ev by simp
  from Cons.prems have rest: "\<forall>(lt, m, cs) \<in> set evs.
             lt = ''fingerprinting:canvas'' \<longrightarrow> m ''name'' \<noteq> Some (JStr ''HTMLCanvasElement.toDataURL'')"
    by simp
  show ?case
    unfolding ev using Cons.IH[OF rest] receive_log_keeps_export[of lt m cs st] h by simp
qed

lemma receive_canvas_log_export:
  assumes "m ''name'' = Some (JStr ''HTMLCanvasElement.toDataURL'')"
    and "m ''arguments'' = Some a" and "m ''retval'' = Some r"
  shows "receive_canvas_log m cs st =
     (None, st\<lparr>canvas := (canvas st)\<lparr>calls := calls (canvas st) @
                 [calldict (JStr ''HTMLCanvasElement.toDataURL'') a]\<rparr>,
               canvas_call_stack := Some (drop 1 cs), canvas_image := Some r\<rparr>)"
  using assms by (simp add: receive_canvas_log_def getitem_def Let_def)

lemma receive_log_state:
  "\<exists>xc xa xw xm s i. snd (receive_log lt m cs st) =
     st\<lparr>canvas := (canvas st)\<lparr>calls := xc\<rparr>, audio := (audio st)\<lparr>calls := xa\<rparr>,
        webgl := (webgl st)\<lparr>calls := xw\<rparr>, misc := (misc st)\<lparr>calls := xm\<rparr>,
        canvas_call_stack := s, canvas_image := i\<rparr>"
proof -
  have shape: "\<exists>xc xa xw xm s i. st' =
     st\<lparr>canvas := (canvas st)\<lparr>calls := xc\<rparr>, audio := (audio st)\<lparr>calls := xa\<rparr>,
        webgl := (webgl st)\<lparr>calls := xw\<rparr>, misc := (misc st)\<lparr>calls := xm\<rparr>,
        canvas_call_stack := s, canvas_image := i\<rparr>"
    if "canvas st' = (canvas st)\<lparr>calls := xc\<rparr>" "audio st' = (audio st)\<lparr>calls := xa\<rparr>"
       "webgl st' = (webgl st)\<lparr>calls := xw\<rparr>" "misc st' = (misc st)\<lparr>calls := xm\<rparr>"
       "audio_call_stack st' = audio_call_stack st" "webgl_call_stack st' = webgl_call_stack st"
       "misc_call_stack st' = misc_call_stack st"
       "result_fingerprinting st' = result_fingerprinting st" "result_files st' = result_files st"
       "extractor.more st' = extractor.more st"
    for st' xc xa xw xm
  proof -
    have "st' = st\<lparr>canvas := (canvas st)\<lparr>calls := xc\<rparr>, audio := (audio st)\<lparr>calls := xa\<rparr>,
        webgl := (webgl st)\<lparr>calls := xw\<rparr>, misc := (misc st)\<lparr>calls := xm\<rparr>,
        canvas_call_stack := canvas_call_stack st', canvas_image := canvas_image st'\<rparr>"
      using that by (intro extractor.equality) simp_all
    then show ?thesis by blast
  qed
  have same: "c = c\<lparr>calls := calls c\<rparr>" for c :: category by simp
  obtain xa where a: "snd (receive_audio_log m cs st) = st\<lparr>audio := (audio st)\<lparr>calls := xa\<rparr>\<rparr>"
    using receive_audio_log_state by blast
  obtain xw where w: "snd (receive_webgl_log m cs st) = st\<lparr>webgl := (webgl st)\<lparr>calls := xw\<rparr>\<rparr>"
    using receive_webgl_log_state by blast
  obtain xm where mi: "snd (receive_misc_log m cs st) = st\<lparr>misc := (misc st)\<lparr>calls := xm\<rparr>\<rparr>"
    using receive_misc_log_state by blast
  obtain xc s i where c: "snd (receive_canvas_log m cs st) =
      st\<lparr>canvas := (canvas st)\<lparr>calls := xc\<rparr>, canvas_call_stack := s, canvas_image := i\<rparr>"
    using receive_canvas_log_state by blast
  consider (canvas) "lt = ''fingerprinting:canvas''" | (audio) "lt = ''fingerprinting:audio''"
    | (webgl) "lt = ''fingerprinting:webgl''" | (misc) "lt = ''fingerprinting:misc''"
    | (other) "lt \<notin> {''fingerprinting:canvas'', ''fingerprinting:audio'',
                  ''fingerprinting:webgl'', ''fingerprinting:misc''}"
    by blast
  then show ?thesis
  proof cases
    case canvas
    show ?thesis
      by (rule shape[where xc = xc and xa = "calls (audio st)" and xw = "calls (webgl st)"
            and xm = "calls (misc st)"]) (simp_all add: receive_log_cases canvas c)
  next
    case audio
    show ?thesis
      by (rule shape[where xc = "calls (canvas st)" and xa = xa and xw = "calls (webgl st)"
            and xm = "calls (misc st)"]) (simp_all add: receive_log_cases audio a)
  next
    case webgl
    show ?thesis
      by (rule shape[where xc = "calls (canvas st)" and xa = "calls (audio st)" and xw = xw
            and xm = "calls (misc st)"]) (simp_all add: receive_log_cases webgl w)
  next
    case misc
    show ?thesis
      by (rule shape[where xc = "calls (canvas st)" and xa = "calls (audio st)"
            and xw = "calls (webgl st)" and xm = xm]) (simp_all add: receive_log_cases misc mi)
  next
    case other
    show ?thesis
      by (rule shape[where xc = "calls (canvas st)" and xa = "calls (audio st)"
            and xw = "calls (webgl st)" and xm = "calls (misc st)"])
         (use other in \<open>simp_all add: receive_log_cases\<close>)
  qed
qed

text \<open>What no event ever touches.\<close>

lemma receive_log_frame:
  "is_fingerprinting (canvas (snd (receive_log lt m cs st))) = is_fingerprinting (canvas st)"
  "call_stack (canvas (snd (receive_log lt m cs st))) = call_stack (canvas st)"
  "is_fingerprinting (audio (snd (receive_log lt m cs st))) = is_fingerprinting (audio st)"
  "call_stack (audio (snd (receive_log lt m cs st))) = call_stack (audio st)"
  "is_fingerprinting (webgl (snd (receive_log lt m cs st))) = is_fingerprinting (webgl st)"
  "call_stack (webgl (snd (receive_log lt m cs st))) = call_stack (webgl st)"
  "is_fingerprinting (misc (snd (receive_log lt m cs st))) = is_fingerprinting (misc st)"
  "call_stack (misc (snd (receive_log lt m cs st))) = call_stack (misc st)"
  "audio_call_stack (snd (receive_log lt m cs st)) = audio_call_stack st"
  "webgl_call_stack (snd (receive_log lt m cs st)) = webgl_call_stack st"
  "misc_call_stack (snd (receive_log lt m cs st)) = misc_call_stack st"
  "result_fingerprinting (snd (receive_log lt m cs st)) = result_fingerprinting st"
  "result_files (snd (receive_log lt m cs st)) = result_files st"
  using receive_log_state[of lt m cs st] by auto

lemma deliver_frame:
  "is_fingerprinting (canvas (deliver evs st)) = is_fingerprinting (canvas st) \<and>
   call_stack (canvas (deliver evs st)) = call_stack (canvas st) \<and>
   is_fingerprinting (audio (deliver evs st)) = is_fingerprinting (audio st) \<and>
   call_stack (audio (deliver evs st)) = call_stack (audio st) \<and>
   is_fingerprinting (webgl (deliver evs st)) = is_fingerprinting (webgl st) \<and>
   call_stack (webgl (deliver evs st)) = call_stack (webgl st) \<and>
   is_fingerprinting (misc (deliver evs st)) = is_fingerprinting (misc st) \<and>
   call_stack (misc (deliver evs st)) = call_stack (misc st) \<and>
   audio_call_stack (deliver evs st) = audio_call_stack st \<and>
   webgl_call_stack (deliver evs st) = webgl_call_stack st \<and>
   misc_call_stack (deliver evs st) = misc_call_stack st \<and>
   result_fingerprinting (deliver evs st) = result_fingerprinting st \<and>
   result_files (deliver evs st) = result_files st"
proof (induction evs arbitrary: st)
  case Nil
  show ?case by simp
next
  case (Cons ev evs)
  obtain lt m cs where ev: "ev = (lt, m, cs)" by (cases ev)
  show ?case unfolding ev by (simp add: Cons.IH receive_log_frame)
qed

lemma receive_log_canvas_stack:
  "canvas_call_stack (snd (receive_log lt m cs st)) =
     (if lt = ''fingerprinting:canvas'' \<and> m ''name'' = Some (JStr ''HTMLCanvasElement.toDataURL'')
         \<and> m ''arguments'' \<noteq> None
      then Some (drop 1 cs) else canvas_call_stack st)"
proof (cases "lt = ''fingerprinting:canvas'' \<and> m ''name'' = Some (JStr ''HTMLCanvasElement.toDataURL'')")
  case True
  then show ?thesis
    by (auto simp: receive_log_cases receive_canvas_log_def getitem_def Let_def
          split: option.splits)
next
  case False
  then have "lt = ''fingerprinting:canvas'' \<longrightarrow> m ''name'' \<noteq> Some (JStr ''HTMLCanvasElement.toDataURL'')"
    by simp
  with receive_log_keeps_export(2)[of lt m cs st] False show ?thesis by auto
qed

lemma deliver_canvas_stack:
  "canvas_call_stack (deliver evs st) \<noteq> None \<longleftrightarrow>
     canvas_call_stack st \<noteq> None \<or>
     (\<exists>(lt, m, cs) \<in> set evs. lt = ''fingerprinting:canvas'' \<and>
        m ''name'' = Some (JStr ''HTMLCanvasElement.toDataURL'') \<and> m ''arguments'' \<noteq> None)"
proof (induction evs arbitrary: st)
  case Nil
  show ?case by simp
next
  case (Cons ev evs)
  obtain lt m cs where ev: "ev = (lt, m, cs)" by (cases ev)
  let ?export = "lt = ''fingerprinting:canvas'' \<and>
        m ''name'' = Some (JStr ''HTMLCanvasElement.toDataURL'') \<and> m ''arguments'' \<noteq> None"
  let ?st1 = "snd (receive_log lt m cs st)"
  have step: "canvas_call_stack ?st1 \<noteq> None \<longleftrightarrow> canvas_call_stack st \<noteq> None \<or> ?export"
    by (auto simp: receive_log_canvas_stack)
  have "canvas_call_stack (deliver (ev # evs) st) \<noteq> None \<longleftrightarrow>
          canvas_call_stack ?st1 \<noteq> None \<or>
          (\<exists>(lt, m, cs) \<in> set evs. lt = ''fingerprinting:canvas'' \<and>
             m ''name'' = Some (JStr ''HTMLCanvasElement.toDataURL'') \<and> m ''arguments'' \<noteq> None)"
    unfolding ev using Cons.IH[of ?st1] by simp
  also have "\<dots> \<longleftrightarrow> canvas_call_stack st \<noteq> None \<or>
          (\<exists>(lt, m, cs) \<in> set (ev # evs). lt = ''fingerprinting:canvas'' \<and>
             m ''name'' = Some (JStr ''HTMLCanvasElement.toDataURL'') \<and> m ''arguments'' \<noteq> None)"
    unfolding step unfolding ev by auto
  finally show ?case .
qed

lemma uses_text_loop_calldict:
  "uses_text_loop (calldict n a # rest) =
     (if n \<in> set text_methods then Inr True else uses_text_loop rest)"
  by (simp add: calldict_def py_in_text_methods)

lemma uses_text_loop_events:
  "uses_text_loop (concat (map (\<lambda>(lt, m, cs).
          if lt = ''fingerprinting:canvas'' then
            (case m ''name'' of None \<Rightarrow> [] | Some n \<Rightarrow>
               (case m ''arguments'' of None \<Rightarrow> [] | Some a \<Rightarrow> [calldict n a]))
          else []) evs)) =
   Inr (\<exists>(lt, m, cs) \<in> set evs. lt = ''fingerprinting:canvas'' \<and>
          (\<exists>n. m ''name'' = Some n \<and> n \<in> set text_methods) \<and> m ''arguments'' \<noteq> None)"
proof (induction evs)
  case Nil
  show ?case by simp
next
  case (Cons ev evs)
  obtain lt m cs where ev: "ev = (lt, m, cs)" by (cases ev)
  show ?case unfolding ev
    by (cases "m ''name''"; cases "m ''arguments''")
       (auto simp: Cons.IH uses_text_loop_calldict simp del: uses_text_loop.simps(2))
qed

lemma extract_others_inert:
  "audio_call_stack st = None \<Longrightarrow> webgl_call_stack st = None \<Longrightarrow> misc_call_stack st = None
     \<Longrightarrow> extract_others st = st"
  by (simp add: extract_others_def)

text \<open>Finalization when no stack was captured for audio, WebGL and misc.\<close>

lemma extract_canvas_negative:
  assumes "audio_call_stack st = None" "webgl_call_stack st = None" "misc_call_stack st = None"
    and "uses_text_loop (calls (canvas st)) = Inr b"
    and "\<not> (b \<and> canvas_call_stack st \<noteq> None)"
  shows "extract_canvas st = (None, st)"
  using assms by (auto simp: extract_canvas_def extract_others_inert)

lemma extract_canvas_positive:
  assumes "audio_call_stack st = None" "webgl_call_stack st = None" "misc_call_stack st = None"
    and "uses_text_loop (calls (canvas st)) = Inr True"
    and "canvas_call_stack st = Some stack"
  shows "extract_canvas st =
     (let st1 = st\<lparr>canvas := (canvas st)\<lparr>is_fingerprinting := True, call_stack := Some stack\<rparr>\<rparr>
      in case canvas_image st of
           Some (JStr data_url) \<Rightarrow>
             (case try_decode data_url of
                Inl e \<Rightarrow> if is_ValueError e then (None, st1) else (Some e, st1)
              | Inr None \<Rightarrow> (None, st1)
              | Inr (Some bs) \<Rightarrow>
                  if bs \<noteq> [] then (None, add_file ''fingerprinting_canvas'' bs st1)
                  else (None, st1))
         | _ \<Rightarrow> (Some AttributeError, st1))"
  using assms
  by (auto simp: extract_canvas_def extract_others_inert Let_def add_file_def
        split: option.splits jv.splits sum.splits)

lemma extract_canvas_frame:
  assumes "audio_call_stack st = None" "webgl_call_stack st = None" "misc_call_stack st = None"
    and "uses_text_loop (calls (canvas st)) = Inr b"
  shows "audio (snd (extract_canvas st)) = audio st \<and>
         webgl (snd (extract_canvas st)) = webgl st \<and>
         misc (snd (extract_canvas st)) = misc st \<and>
         result_fingerprinting (snd (extract_canvas st)) = result_fingerprinting st \<and>
         is_fingerprinting (canvas (snd (extract_canvas st))) =
           (is_fingerprinting (canvas st) \<or> (b \<and> canvas_call_stack st \<noteq> None))"
proof (cases "b \<and> canvas_call_stack st \<noteq> None")
  case False
  with extract_canvas_negative[OF assms] show ?thesis by auto
next
  case True
  then obtain stack where s: "canvas_call_stack st = Some stack" and b: "b" by auto
  from assms(4) b have u: "uses_text_loop (calls (canvas st)) = Inr True" by simp
  show ?thesis
    unfolding extract_canvas_positive[OF assms(1-3) u s]
    using b s
    by (auto simp: Let_def add_file_def split: option.splits jv.splits sum.splits)
qed

section \<open>A whole scan\<close>

lemma init_fields:
  "calls (canvas (init files)) = []" "is_fingerprinting (canvas (init files)) = False"
  "canvas_call_stack (init files) = None"
  "audio_call_stack (init files) = None" "webgl_call_stack (init files) = None"
  "misc_call_stack (init files) = None"
  "audio (init files) = \<lparr>calls = [], is_fingerprinting = False, call_stack = None\<rparr>"
  "webgl (init files) = \<lparr>calls = [], is_fingerprinting = False, call_stack = None\<rparr>"
  "misc (init files) = \<lparr>calls = [], is_fingerprinting = False, call_stack = None\<rparr>"
  "result_files (init files) = files"
  by (simp_all add: init_def)

text \<open>The state handed to \<open>_extract_canvas\<close> at the end of a scan.\<close>

lemma scan_unfold:
  "scan evs files = extract_canvas ((deliver evs (init files))
      \<lparr>result_fingerprinting :=
             Some [''canvas'' \<mapsto> RCanvas, ''audio'' \<mapsto> RAudio,
                   ''webgl'' \<mapsto> RWebgl, ''misc'' \<mapsto> RMisc]\<rparr>)"
  by (simp add: scan_def extract_information_def)

lemma result_category_keys:
  assumes "result_fingerprinting st =
             Some [''canvas'' \<mapsto> RCanvas, ''audio'' \<mapsto> RAudio,
                   ''webgl'' \<mapsto> RWebgl, ''misc'' \<mapsto> RMisc]"
  shows "result_category st ''canvas'' = Some (canvas st)"
    and "result_category st ''audio'' = Some (audio st)"
    and "result_category st ''webgl'' = Some (webgl st)"
    and "result_category st ''misc'' = Some (misc st)"
  using assms by (simp_all add: result_category_def)

lemma scan_facts:
  defines "text_ev \<equiv> \<lambda>evs. (\<exists>(lt, m, cs) \<in> set evs. lt = ''fingerprinting:canvas'' \<and>
          (\<exists>n. m ''name'' = Some n \<and> n \<in> set text_methods) \<and> m ''arguments'' \<noteq> None)"
    and "export_ev \<equiv> \<lambda>evs. (\<exists>(lt, m, cs) \<in> set evs. lt = ''fingerprinting:canvas'' \<and>
        m ''name'' = Some (JStr ''HTMLCanvasElement.toDataURL'') \<and> m ''arguments'' \<noteq> None)"
  shows "result_fingerprinting (snd (scan evs files)) =
             Some [''canvas'' \<mapsto> RCanvas, ''audio'' \<mapsto> RAudio,
                   ''webgl'' \<mapsto> RWebgl, ''misc'' \<mapsto> RMisc] \<and>
         audio (snd (scan evs files)) = (audio (deliver evs (init files))) \<and>
         webgl (snd (scan evs files)) = (webgl (deliver evs (init files))) \<and>
         misc (snd (scan evs files)) = (misc (deliver evs (init files))) \<and>
         is_fingerprinting (canvas (snd (scan evs files))) = (text_ev evs \<and> export_ev evs)"
proof -
  let ?st = "(deliver evs (init files))
      \<lparr>result_fingerprinting :=
             Some [''canvas'' \<mapsto> RCanvas, ''audio'' \<mapsto> RAudio,
                   ''webgl'' \<mapsto> RWebgl, ''misc'' \<mapsto> RMisc]\<rparr>"
  have a: "audio_call_stack ?st = None" "webgl_call_stack ?st = None" "misc_call_stack ?st = None"
    by (simp_all add: deliver_frame init_fields)
  have u: "uses_text_loop (calls (canvas ?st)) = Inr (text_ev evs)"
    unfolding text_ev_def
    using uses_text_loop_events[of evs] by (simp add: deliver_canvas_calls init_fields)
  have s: "canvas_call_stack ?st \<noteq> None \<longleftrightarrow> export_ev evs"
    unfolding export_ev_def
    using deliver_canvas_stack[of evs "init files"] by (simp add: init_fields)
  have f: "is_fingerprinting (canvas ?st) = False"
    by (simp add: deliver_frame init_fields)
  from extract_canvas_frame[OF a u] s f show ?thesis
    unfolding scan_unfold by simp
qed

lemma deliver_last_export:
  assumes "m ''name'' = Some (JStr ''HTMLCanvasElement.toDataURL'')"
    and "m ''arguments'' = Some a"
    and "m ''retval'' = Some r"
    and "\<forall>(lt', m', cs') \<in> set later.
           lt' = ''fingerprinting:canvas'' \<longrightarrow>
           m' ''name'' \<noteq> Some (JStr ''HTMLCanvasElement.toDataURL'')"
  shows "canvas_image (deliver (earlier @ (''fingerprinting:canvas'', m, cs) # later) st) = Some r
       \<and> canvas_call_stack (deliver (earlier @ (''fingerprinting:canvas'', m, cs) # later) st)
           = Some (drop 1 cs)"
proof -
  let ?st1 = "deliver earlier st"
  let ?st2 = "snd (receive_log ''fingerprinting:canvas'' m cs ?st1)"
  have split: "deliver (earlier @ (''fingerprinting:canvas'', m, cs) # later) st = deliver later ?st2"
    by (simp add: deliver_append)
  have "canvas_image ?st2 = Some r \<and> canvas_call_stack ?st2 = Some (drop 1 cs)"
    by (simp add: receive_log_cases receive_canvas_log_export[OF assms(1-3)])
  with deliver_keeps_export[OF assms(4), of ?st2] show ?thesis
    unfolding split by simp
qed

lemma a2b_base64_error: "a2b_base64 s q l p out = Inl e \<Longrightarrow> e = BinasciiError"
  by (induction s q l p out rule: a2b_base64.induct) (auto split: if_splits option.splits)

lemma b64decode_error: "b64decode s = Inl e \<Longrightarrow> is_ValueError e"
  by (auto simp: b64decode_def split: if_splits dest: a2b_base64_error)

lemma try_decode_cases:
  "try_decode url =
     (if CHR '','' \<in> set url then
        (if str_contains ''base64'' (takeWhile (\<lambda>c. c \<noteq> CHR '','') url) then
           (case b64decode (tl (dropWhile (\<lambda>c. c \<noteq> CHR '','') url)) of
              Inl e \<Rightarrow> Inl e
            | Inr bs \<Rightarrow> Inr (Some bs))
         else Inr None)
      else Inl ValueError)"
  by (simp add: try_decode_def split_comma_def)

lemma try_decode_error: "try_decode url = Inl e \<Longrightarrow> is_ValueError e"
  by (auto simp: try_decode_cases split: if_splits sum.splits dest: b64decode_error)

text \<open>A scan that ends in a positive canvas verdict with a string as image candidate.\<close>

lemma scan_positive:
  assumes "\<exists>(lt', m', cs') \<in> set (earlier @ later). lt' = ''fingerprinting:canvas'' \<and>
             (m' ''name'' = Some (JStr ''CanvasRenderingContext2D.fillText'') \<or>
              m' ''name'' = Some (JStr ''CanvasRenderingContext2D.strokeText'')) \<and>
             m' ''arguments'' \<noteq> None"
    and "m ''name'' = Some (JStr ''HTMLCanvasElement.toDataURL'')"
    and "m ''arguments'' = Some a"
    and "m ''retval'' = Some (JStr url)"
    and "\<forall>(lt', m', cs') \<in> set later.
           lt' = ''fingerprinting:canvas'' \<longrightarrow>
           m' ''name'' \<noteq> Some (JStr ''HTMLCanvasElement.toDataURL'')"
  shows "fst (scan (earlier @ (''fingerprinting:canvas'', m, cs) # later) files) = None \<and>
         is_fingerprinting (canvas (snd (scan (earlier @ (''fingerprinting:canvas'', m, cs) # later) files))) \<and>
         call_stack (canvas (snd (scan (earlier @ (''fingerprinting:canvas'', m, cs) # later) files)))
           = Some (drop 1 cs) \<and>
         result_files (snd (scan (earlier @ (''fingerprinting:canvas'', m, cs) # later) files)) =
           files @ (case try_decode url of
                      Inr (Some bs) \<Rightarrow> if bs \<noteq> [] then [(''fingerprinting_canvas'', bs)] else []
                    | _ \<Rightarrow> [])"
proof -
  let ?evs = "earlier @ (''fingerprinting:canvas'', m, cs) # later"
  let ?st = "(deliver ?evs (init files))
      \<lparr>result_fingerprinting :=
             Some [''canvas'' \<mapsto> RCanvas, ''audio'' \<mapsto> RAudio,
                   ''webgl'' \<mapsto> RWebgl, ''misc'' \<mapsto> RMisc]\<rparr>"
  have inert: "audio_call_stack ?st = None" "webgl_call_stack ?st = None" "misc_call_stack ?st = None"
    by (simp_all add: deliver_frame init_fields)
  from assms(1) obtain x where x: "x \<in> set (earlier @ later)"
    and px: "case x of (lt', m', cs') \<Rightarrow> lt' = ''fingerprinting:canvas'' \<and>
             (m' ''name'' = Some (JStr ''CanvasRenderingContext2D.fillText'') \<or>
              m' ''name'' = Some (JStr ''CanvasRenderingContext2D.strokeText'')) \<and>
             m' ''arguments'' \<noteq> None"
    by blast
  from x have "x \<in> set ?evs" by auto
  moreover from px have "case x of (lt, m, cs) \<Rightarrow> lt = ''fingerprinting:canvas'' \<and>
          (\<exists>n. m ''name'' = Some n \<and> n \<in> set text_methods) \<and> m ''arguments'' \<noteq> None"
    by (cases x) (auto simp: text_methods_def)
  ultimately have "\<exists>(lt, m, cs) \<in> set ?evs. lt = ''fingerprinting:canvas'' \<and>
          (\<exists>n. m ''name'' = Some n \<and> n \<in> set text_methods) \<and> m ''arguments'' \<noteq> None"
    by (rule bexI[rotated])
  then have u: "uses_text_loop (calls (canvas ?st)) = Inr True"
    using uses_text_loop_events[of ?evs] by (simp add: deliver_canvas_calls init_fields)
  from deliver_last_export[OF assms(2-5), of earlier cs "init files"]
  have img: "canvas_image ?st = Some (JStr url)" and stk: "canvas_call_stack ?st = Some (drop 1 cs)"
    by simp_all
  have files: "result_files ?st = files"
    by (simp add: deliver_frame init_fields)
  show ?thesis
    unfolding scan_unfold extract_canvas_positive[OF inert u stk]
    using img files try_decode_error[of url]
    by (auto simp: Let_def add_file_def split: sum.splits option.splits)
qed

section \<open>Deduplicated lists\<close>

lemma py_eq_calldict:
  "py_eq (calldict n a) (calldict n' a') = (py_eq n n' \<and> py_eq a a')"
  unfolding calldict_def py_eq_JObj by auto

lemma py_in_snoc: "py_in d (xs @ [d])"
  by (simp add: py_in_def py_eq_refl)

lemma py_in_append: "py_in d xs \<Longrightarrow> py_in d (xs @ ys)"
  by (auto simp: py_in_def list_ex_iff)

lemma py_distinct_snoc: "py_distinct xs \<Longrightarrow> \<not> py_in d xs \<Longrightarrow> py_distinct (xs @ [d])"
proof (induction xs)
  case Nil
  then show ?case by (simp add: py_in_def)
next
  case (Cons x xs)
  from Cons.prems have "\<not> py_eq x d" by (simp add: py_in_def)
  then have "\<not> py_eq d x" using py_eq_sym by blast
  with Cons show ?case by (auto simp: py_in_def list_ex_iff)
qed

lemma py_distinct_count:
  "py_distinct xs \<Longrightarrow> py_in d xs \<Longrightarrow> length (filter (py_eq d) xs) = 1"
proof (induction xs)
  case Nil
  then show ?case by (simp add: py_in_def)
next
  case (Cons x xs)
  show ?case
  proof (cases "py_eq d x")
    case True
    have "\<not> py_eq d e" if "e \<in> set xs" for e
    proof
      assume "py_eq d e"
      with True have "py_eq e x" using py_eq_sym py_eq_trans by blast
      with that Cons.prems(1) show False by (auto simp: py_in_def list_ex_iff)
    qed
    then have "filter (py_eq d) xs = []" by (simp add: filter_empty_conv)
    with True show ?thesis by simp
  next
    case False
    then have "\<not> py_eq x d" using py_eq_sym by blast
    with Cons.prems have "py_in d xs" "py_distinct xs" by (auto simp: py_in_def)
    with Cons.IH False show ?thesis by simp
  qed
qed

text \<open>A list that only ever grows by appending values not yet in it.\<close>

lemma deliver_grows:
  fixes f :: "extractor \<Rightarrow> jv list"
  assumes step: "\<And>lt m cs st. f (snd (receive_log lt m cs st)) = f st \<or>
                  (\<exists>d. \<not> py_in d (f st) \<and> f (snd (receive_log lt m cs st)) = f st @ [d])"
  shows "(py_distinct (f st) \<longrightarrow> py_distinct (f (deliver evs st))) \<and>
         (py_in d (f st) \<longrightarrow> py_in d (f (deliver evs st)))"
proof (induction evs arbitrary: st)
  case Nil
  show ?case by simp
next
  case (Cons ev evs)
  obtain lt m cs where ev: "ev = (lt, m, cs)" by (cases ev)
  let ?st1 = "snd (receive_log lt m cs st)"
  from step[of lt m cs st]
  have "(py_distinct (f st) \<longrightarrow> py_distinct (f ?st1)) \<and> (py_in d (f st) \<longrightarrow> py_in d (f ?st1))"
    by (auto simp: py_distinct_snoc py_in_append)
  with Cons.IH[of ?st1] show ?case unfolding ev by simp
qed

lemma receive_log_audio_calls:
  "calls (audio (snd (receive_log lt m cs st))) =
     (if lt = ''fingerprinting:audio'' then
        (case m ''name'' of None \<Rightarrow> calls (audio st) | Some n \<Rightarrow>
           (case m ''arguments'' of None \<Rightarrow> calls (audio st) | Some a \<Rightarrow>
              if py_in (calldict n a) (calls (audio st)) then calls (audio st)
              else calls (audio st) @ [calldict n a]))
      else calls (audio st))"
proof -
  obtain xw where w: "snd (receive_webgl_log m cs st) = st\<lparr>webgl := (webgl st)\<lparr>calls := xw\<rparr>\<rparr>"
    using receive_webgl_log_state by blast
  obtain xm where mi: "snd (receive_misc_log m cs st) = st\<lparr>misc := (misc st)\<lparr>calls := xm\<rparr>\<rparr>"
    using receive_misc_log_state by blast
  obtain xc s i where c: "snd (receive_canvas_log m cs st) =
      st\<lparr>canvas := (canvas st)\<lparr>calls := xc\<rparr>, canvas_call_stack := s, canvas_image := i\<rparr>"
    using receive_canvas_log_state by blast
  have a: "calls (audio (snd (receive_audio_log m cs st))) =
        (case m ''name'' of None \<Rightarrow> calls (audio st) | Some n \<Rightarrow>
           (case m ''arguments'' of None \<Rightarrow> calls (audio st) | Some a \<Rightarrow>
              if py_in (calldict n a) (calls (audio st)) then calls (audio st)
              else calls (audio st) @ [calldict n a]))"
    by (simp add: receive_audio_log_def getitem_def Let_def split: option.splits)
  show ?thesis
    by (simp add: receive_log_cases a w mi c)
qed

lemma receive_log_webgl_calls:
  "calls (webgl (snd (receive_log lt m cs st))) =
     (if lt = ''fingerprinting:webgl'' then
        (case m ''name'' of None \<Rightarrow> calls (webgl st) | Some n \<Rightarrow>
           (case m ''arguments'' of None \<Rightarrow> calls (webgl st) | Some a \<Rightarrow>
              if py_in (calldict n a) (calls (webgl st)) then calls (webgl st)
              else calls (webgl st) @ [calldict n a]))
      else calls (webgl st))"
proof -
  obtain xa where a: "snd (receive_audio_log m cs st) = st\<lparr>audio := (audio st)\<lparr>calls := xa\<rparr>\<rparr>"
    using receive_audio_log_state by blast
  obtain xm where mi: "snd (receive_misc_log m cs st) = st\<lparr>misc := (misc st)\<lparr>calls := xm\<rparr>\<rparr>"
    using receive_misc_log_state by blast
  obtain xc s i where c: "snd (receive_canvas_log m cs st) =
      st\<lparr>canvas := (canvas st)\<lparr>calls := xc\<rparr>, canvas_call_stack := s, canvas_image := i\<rparr>"
    using receive_canvas_log_state by blast
  have w: "calls (webgl (snd (receive_webgl_log m cs st))) =
        (case m ''name'' of None \<Rightarrow> calls (webgl st) | Some n \<Rightarrow>
           (case m ''arguments'' of None \<Rightarrow> calls (webgl st) | Some a \<Rightarrow>
              if py_in (calldict n a) (calls (webgl st)) then calls (webgl st)
              else calls (webgl st) @ [calldict n a]))"
    by (simp add: receive_webgl_log_def getitem_def Let_def split: option.splits)
  show ?thesis
    by (simp add: receive_log_cases a w mi c)
qed

lemma receive_log_misc_calls:
  "calls (misc (snd (receive_log lt m cs st))) =
     (if lt = ''fingerprinting:misc'' then
        (case misc_calldict m of Inl e \<Rightarrow> calls (misc st) | Inr d \<Rightarrow>
              if py_in d (calls (misc st)) then calls (misc st)
              else calls (misc st) @ [d])
      else calls (misc st))"
proof -
  obtain xa where a: "snd (receive_audio_log m cs st) = st\<lparr>audio := (audio st)\<lparr>calls := xa\<rparr>\<rparr>"
    using receive_audio_log_state by blast
  obtain xw where w: "snd (receive_webgl_log m cs st) = st\<lparr>webgl := (webgl st)\<lparr>calls := xw\<rparr>\<rparr>"
    using receive_webgl_log_state by blast
  obtain xc s i where c: "snd (receive_canvas_log m cs st) =
      st\<lparr>canvas := (canvas st)\<lparr>calls := xc\<rparr>, canvas_call_stack := s, canvas_image := i\<rparr>"
    using receive_canvas_log_state by blast
  have mi: "calls (misc (snd (receive_misc_log m cs st))) =
        (case misc_calldict m of Inl e \<Rightarrow> calls (misc st) | Inr d \<Rightarrow>
              if py_in d (calls (misc st)) then calls (misc st)
              else calls (misc st) @ [d])"
    by (simp add: receive_misc_log_def split: sum.splits)
  show ?thesis
    by (simp add: receive_log_cases a w mi c)
qed

lemma misc_calldict_property:
  "m ''name'' = Some n \<Longrightarrow> n \<in> set listofcheckedproperties \<Longrightarrow> m ''value'' = Some v
     \<Longrightarrow> misc_calldict m = Inr (propdict n v)"
  by (simp add: misc_calldict_def getitem_def py_in_checked)

lemma misc_calldict_method:
  "m ''name'' = Some n \<Longrightarrow> n \<notin> set listofcheckedproperties \<Longrightarrow> m ''arguments'' = Some a
     \<Longrightarrow> misc_calldict m = Inr (calldict n a)"
  by (auto simp: misc_calldict_def getitem_def py_in_checked)

lemma misc_calldict_neither:
  "m ''name'' = Some n \<Longrightarrow> n \<notin> set listofcheckedproperties \<Longrightarrow> m ''arguments'' = None
     \<Longrightarrow> misc_calldict m = Inl UnboundLocalError"
  by (auto simp: misc_calldict_def getitem_def py_in_checked)

lemma dedup_count:
  fixes f :: "extractor \<Rightarrow> jv list"
  assumes step: "\<And>lt m cs st. f (snd (receive_log lt m cs st)) = f st \<or>
                  (\<exists>d. \<not> py_in d (f st) \<and> f (snd (receive_log lt m cs st)) = f st @ [d])"
    and hit: "\<And>st. py_in d (f (snd (receive_log lt m cs st)))"
    and start: "py_distinct (f st0)"
    and N: "1 \<le> N"
  shows "length (filter (py_eq d) (f (deliver (evs @ replicate N (lt, m, cs)) st0))) = 1"
proof -
  from N obtain k where k: "N = Suc k" by (cases N) auto
  let ?st1 = "deliver evs st0"
  let ?st2 = "snd (receive_log lt m cs ?st1)"
  let ?st3 = "deliver (replicate k (lt, m, cs)) ?st2"
  have eq: "deliver (evs @ replicate N (lt, m, cs)) st0 = ?st3"
    by (simp add: k deliver_append)
  have d1: "py_distinct (f ?st1)"
    using deliver_grows[where f = f and st = st0 and d = d and evs = evs, OF step] start by blast
  have d2: "py_distinct (f ?st2)"
    using step[of lt m cs ?st1] d1 by (auto simp: py_distinct_snoc)
  have "py_distinct (f ?st3)" "py_in d (f ?st3)"
    using deliver_grows[where f = f and st = ?st2 and d = d and evs = "replicate k (lt, m, cs)", OF step] d2 hit[of ?st1]
    by blast+
  then show ?thesis unfolding eq by (rule py_distinct_count)
qed

lemma audio_step:
  "calls (audio (snd (receive_log lt m cs st))) = calls (audio st) \<or>
   (\<exists>d. \<not> py_in d (calls (audio st)) \<and>
        calls (audio (snd (receive_log lt m cs st))) = calls (audio st) @ [d])"
  by (auto simp: receive_log_audio_calls split: option.splits)

lemma webgl_step:
  "calls (webgl (snd (receive_log lt m cs st))) = calls (webgl st) \<or>
   (\<exists>d. \<not> py_in d (calls (webgl st)) \<and>
        calls (webgl (snd (receive_log lt m cs st))) = calls (webgl st) @ [d])"
  by (auto simp: receive_log_webgl_calls split: option.splits)

lemma misc_step:
  "calls (misc (snd (receive_log lt m cs st))) = calls (misc st) \<or>
   (\<exists>d. \<not> py_in d (calls (misc st)) \<and>
        calls (misc (snd (receive_log lt m cs st))) = calls (misc st) @ [d])"
  by (auto simp: receive_log_misc_calls split: sum.splits)

lemma audio_hit:
  "m ''name'' = Some n \<Longrightarrow> m ''arguments'' = Some a \<Longrightarrow>
     py_in (calldict n a) (calls (audio (snd (receive_log ''fingerprinting:audio'' m cs st))))"
  by (simp add: receive_log_audio_calls py_in_snoc)

lemma webgl_hit:
  "m ''name'' = Some n \<Longrightarrow> m ''arguments'' = Some a \<Longrightarrow>
     py_in (calldict n a) (calls (webgl (snd (receive_log ''fingerprinting:webgl'' m cs st))))"
  by (simp add: receive_log_webgl_calls py_in_snoc)

lemma misc_hit:
  "misc_calldict m = Inr d \<Longrightarrow>
     py_in d (calls (misc (snd (receive_log ''fingerprinting:misc'' m cs st))))"
  by (simp add: receive_log_misc_calls py_in_snoc)

lemma two_records:
  "\<not> py_eq a a' \<Longrightarrow> \<not> py_in (calldict n a') [calldict n a]"
  by (simp add: py_in_def py_eq_calldict)

section \<open>What the wrappers return\<close>

lemma instrumentFunction_calls_original:
  "snd (instrumentFunction log func name log_type this arguments w) =
     log log_type (FunctionMessage name arguments (fst (func this arguments w)))
       (snd (func this arguments w))"
  by (simp add: instrumentFunction_def split: prod.splits)

lemma instrumentFunction_returns_undefined:
  "fst (instrumentFunction log func name log_type this arguments w) = Undefined"
  by (simp add: instrumentFunction_def split: prod.splits)

lemma instrumentProperty_get_returns_value:
  "fst (instrumentProperty_get log origGetter name log_type this arguments w) =
     fst (origGetter this arguments w)"
  by (simp add: instrumentProperty_get_def split: prod.splits)

section \<open>The dispatcher\<close>

text \<open>
  Claim C9. An event is handed to the canvas, audio, WebGL or misc handler exactly when
  its channel is that category's channel name, and to that handler only: the result of
  \<open>receive_log\<close> is the result of that one handler. On any other channel nothing is
  raised and the state is returned as it was.
\<close>

theorem dispatcher_routing:
  "(log_type = ''fingerprinting:canvas'' \<longrightarrow>
      receive_log log_type message cs st = receive_canvas_log message cs st) \<and>
   (log_type = ''fingerprinting:audio'' \<longrightarrow>
      receive_log log_type message cs st = receive_audio_log message cs st) \<and>
   (log_type = ''fingerprinting:webgl'' \<longrightarrow>
      receive_log log_type message cs st = receive_webgl_log message cs st) \<and>
   (log_type = ''fingerprinting:misc'' \<longrightarrow>
      receive_log log_type message cs st = receive_misc_log message cs st) \<and>
   (log_type \<notin> {''fingerprinting:canvas'', ''fingerprinting:audio'',
                  ''fingerprinting:webgl'', ''fingerprinting:misc''} \<longrightarrow>
      receive_log log_type message cs st = (None, st))"
  by (simp add: receive_log_cases)

theorem dispatcher_routing_witness:
  "receive_log ''fingerprinting:other'' Map.empty [] (init []) = (None, init [])
   \<and> receive_log ''fingerprinting:misc'' Map.empty [] (init []) = (Some KeyError, init [])
   \<and> receive_log ''fingerprinting:audio'' Map.empty [] (init []) = (Some KeyError, init [])
   \<and> receive_log ''fingerprinting:webgl'' Map.empty [] (init []) = (Some KeyError, init [])
   \<and> receive_log ''fingerprinting:canvas'' Map.empty [] (init []) = (Some KeyError, init [])"
  using dispatcher_routing [of "''fingerprinting:other''" Map.empty "[]" "init []"]
        dispatcher_routing [of "''fingerprinting:misc''" Map.empty "[]" "init []"]
        dispatcher_routing [of "''fingerprinting:audio''" Map.empty "[]" "init []"]
        dispatcher_routing [of "''fingerprinting:webgl''" Map.empty "[]" "init []"]
        dispatcher_routing [of "''fingerprinting:canvas''" Map.empty "[]" "init []"]
  by (simp add: receive_misc_log_def misc_calldict_def receive_audio_log_def
        receive_webgl_log_def receive_canvas_log_def getitem_def)

section \<open>The canvas aggregator\<close>

text \<open>
  Claim C7. Canvas calls are never deduplicated. Take any sequence of events, on any
  channels, in which every canvas event carries a \<open>name\<close> and \<open>arguments\<close> (a canvas
  event without one of them raises \<open>KeyError\<close> before anything is stored). Starting from
  a fresh extractor, the canvas \<open>calls\<close> list is then exactly the list of the records
  \<open>{method: name, arguments: arguments}\<close> of the canvas events, one per event, in the
  order of delivery, duplicates included.
\<close>

theorem canvas_calls_chronological:
  assumes "\<forall>(lt, m, cs) \<in> set evs.
             lt = ''fingerprinting:canvas'' \<longrightarrow> ''name'' \<in> dom m \<and> ''arguments'' \<in> dom m"
  shows "calls (canvas (deliver evs (init files))) =
           map (\<lambda>(lt, m, cs).
                  JObj [(''method'', the (m ''name'')), (''arguments'', the (m ''arguments''))])
             (filter (\<lambda>(lt, m, cs). lt = ''fingerprinting:canvas'') evs)"
proof -
  have "concat (map (\<lambda>(lt, m, cs).
          if lt = ''fingerprinting:canvas'' then
            (case m ''name'' of None \<Rightarrow> [] | Some n \<Rightarrow>
               (case m ''arguments'' of None \<Rightarrow> [] | Some a \<Rightarrow> [calldict n a]))
          else []) evs) =
        map (\<lambda>(lt, m, cs).
               JObj [(''method'', the (m ''name'')), (''arguments'', the (m ''arguments''))])
             (filter (\<lambda>(lt, m, cs). lt = ''fingerprinting:canvas'') evs)"
    using assms by (induction evs) (auto simp: calldict_def split: option.splits)
  then show ?thesis
    by (simp add: deliver_canvas_calls init_def)
qed

theorem canvas_calls_chronological_witness:
  "calls (canvas (deliver
      [(''fingerprinting:canvas'',
          [''name'' \<mapsto> JStr ''CanvasRenderingContext2D.fillText'', ''arguments'' \<mapsto> JArr [JStr ''x'']], []),
       (''fingerprinting:canvas'',
          [''name'' \<mapsto> JStr ''HTMLCanvasElement.toDataURL'', ''arguments'' \<mapsto> JArr [],
           ''retval'' \<mapsto> JStr ''data:,''], []),
       (''fingerprinting:canvas'',
          [''name'' \<mapsto> JStr ''CanvasRenderingContext2D.fillText'', ''arguments'' \<mapsto> JArr [JStr ''x'']], [])]
      (init []))) =
    [JObj [(''method'', JStr ''CanvasRenderingContext2D.fillText''), (''arguments'', JArr [JStr ''x''])],
     JObj [(''method'', JStr ''HTMLCanvasElement.toDataURL''), (''arguments'', JArr [])],
     JObj [(''method'', JStr ''CanvasRenderingContext2D.fillText''), (''arguments'', JArr [JStr ''x''])]]"
  using canvas_calls_chronological [of
      "[(''fingerprinting:canvas'',
          [''name'' \<mapsto> JStr ''CanvasRenderingContext2D.fillText'', ''arguments'' \<mapsto> JArr [JStr ''x'']], []),
       (''fingerprinting:canvas'',
          [''name'' \<mapsto> JStr ''HTMLCanvasElement.toDataURL'', ''arguments'' \<mapsto> JArr [],
           ''retval'' \<mapsto> JStr ''data:,''], []),
       (''fingerprinting:canvas'',
          [''name'' \<mapsto> JStr ''CanvasRenderingContext2D.fillText'', ''arguments'' \<mapsto> JArr [JStr ''x'']], [])]"
      "[]"]
  by simp

text \<open>
  Claim C8. When a canvas event named \<open>HTMLCanvasElement.toDataURL\<close> (with its
  \<open>arguments\<close> and \<open>retval\<close>) is received, the image candidate becomes that event's
  return value and the stored call stack becomes the received call stack without its
  first frame. Whatever was delivered earlier, and as long as no later canvas event is
  named \<open>HTMLCanvasElement.toDataURL\<close>, the candidate and the stack after the whole
  sequence are those of that event: the last export wins. With nothing before and
  nothing after, this is the single step.
\<close>

theorem most_recent_export_wins:
  assumes "m ''name'' = Some (JStr ''HTMLCanvasElement.toDataURL'')"
    and "m ''arguments'' = Some a"
    and "m ''retval'' = Some r"
    and "\<forall>(lt', m', cs') \<in> set later.
           lt' = ''fingerprinting:canvas'' \<longrightarrow>
           m' ''name'' \<noteq> Some (JStr ''HTMLCanvasElement.toDataURL'')"
  shows "canvas_image (deliver (earlier @ (''fingerprinting:canvas'', m, cs) # later) st) = Some r
       \<and> canvas_call_stack (deliver (earlier @ (''fingerprinting:canvas'', m, cs) # later) st)
           = Some (drop 1 cs)"
proof -
  let ?st1 = "deliver earlier st"
  let ?st2 = "snd (receive_log ''fingerprinting:canvas'' m cs ?st1)"
  have split: "deliver (earlier @ (''fingerprinting:canvas'', m, cs) # later) st = deliver later ?st2"
    by (simp add: deliver_append)
  have "canvas_image ?st2 = Some r \<and> canvas_call_stack ?st2 = Some (drop 1 cs)"
    by (simp add: receive_log_cases receive_canvas_log_export[OF assms(1-3)])
  with deliver_keeps_export[OF assms(4), of ?st2] show ?thesis
    unfolding split by simp
qed

theorem most_recent_export_wins_witness:
  "canvas_image (deliver
      ([(''fingerprinting:canvas'',
          [''name'' \<mapsto> JStr ''HTMLCanvasElement.toDataURL'', ''arguments'' \<mapsto> JArr [],
           ''retval'' \<mapsto> JStr ''data:first,''], [JStr ''wrapper'', JStr ''old''])]
       @ (''fingerprinting:canvas'',
          [''name'' \<mapsto> JStr ''HTMLCanvasElement.toDataURL'', ''arguments'' \<mapsto> JArr [],
           ''retval'' \<mapsto> JStr ''data:second,''], [JStr ''wrapper'', JStr ''caller''])
       # [(''fingerprinting:canvas'',
          [''name'' \<mapsto> JStr ''CanvasRenderingContext2D.fillText'', ''arguments'' \<mapsto> JArr []],
          [JStr ''wrapper'', JStr ''other''])])
      (init [])) = Some (JStr ''data:second,'')
   \<and> canvas_call_stack (deliver
      ([(''fingerprinting:canvas'',
          [''name'' \<mapsto> JStr ''HTMLCanvasElement.toDataURL'', ''arguments'' \<mapsto> JArr [],
           ''retval'' \<mapsto> JStr ''data:first,''], [JStr ''wrapper'', JStr ''old''])]
       @ (''fingerprinting:canvas'',
          [''name'' \<mapsto> JStr ''HTMLCanvasElement.toDataURL'', ''arguments'' \<mapsto> JArr [],
           ''retval'' \<mapsto> JStr ''data:second,''], [JStr ''wrapper'', JStr ''caller''])
       # [(''fingerprinting:canvas'',
          [''name'' \<mapsto> JStr ''CanvasRenderingContext2D.fillText'', ''arguments'' \<mapsto> JArr []],
          [JStr ''wrapper'', JStr ''other''])])
      (init [])) = Some [JStr ''caller'']"
  using most_recent_export_wins [of
      "[''name'' \<mapsto> JStr ''HTMLCanvasElement.toDataURL'', ''arguments'' \<mapsto> JArr [],
           ''retval'' \<mapsto> JStr ''data:second,'']"
      "JArr []" "JStr ''data:second,''"
      "[(''fingerprinting:canvas'',
          [''name'' \<mapsto> JStr ''CanvasRenderingContext2D.fillText'', ''arguments'' \<mapsto> JArr []],
          [JStr ''wrapper'', JStr ''other''])]"
      "[(''fingerprinting:canvas'',
          [''name'' \<mapsto> JStr ''HTMLCanvasElement.toDataURL'', ''arguments'' \<mapsto> JArr [],
           ''retval'' \<mapsto> JStr ''data:first,''], [JStr ''wrapper'', JStr ''old''])]"
      "[JStr ''wrapper'', JStr ''caller'']" "init []"]
  by simp

section \<open>Verdicts\<close>

text \<open>
  Claim C2. After a scan (any events delivered to a fresh extractor, then
  \<open>extract_information\<close>), the canvas entry of the result has \<open>is_fingerprinting\<close> true
  if and only if (a) some recorded canvas call is a text-drawing call (\<open>fillText\<close> or
  \<open>strokeText\<close>) and (b) some recorded canvas call is the export \<open>toDataURL\<close>, which is
  when a call stack is captured. A canvas call is recorded when its message carries
  \<open>name\<close> and \<open>arguments\<close>. With only one of the two, the verdict is false.
\<close>

theorem conjunctive_canvas_rule:
  "map_option is_fingerprinting (result_category (snd (scan evs files)) ''canvas'') =
     Some ((\<exists>(lt, m, cs) \<in> set evs. lt = ''fingerprinting:canvas'' \<and>
              (m ''name'' = Some (JStr ''CanvasRenderingContext2D.fillText'') \<or>
               m ''name'' = Some (JStr ''CanvasRenderingContext2D.strokeText'')) \<and>
              m ''arguments'' \<noteq> None)
         \<and> (\<exists>(lt, m, cs) \<in> set evs. lt = ''fingerprinting:canvas'' \<and>
              m ''name'' = Some (JStr ''HTMLCanvasElement.toDataURL'') \<and>
              m ''arguments'' \<noteq> None))"
proof -
  have t: "(\<exists>n. m ''name'' = Some n \<and> n \<in> set text_methods) \<longleftrightarrow>
           (m ''name'' = Some (JStr ''CanvasRenderingContext2D.fillText'') \<or>
            m ''name'' = Some (JStr ''CanvasRenderingContext2D.strokeText''))" for m :: message
    by (auto simp: text_methods_def)
  from scan_facts[of evs files] show ?thesis
    by (simp add: result_category_keys t)
qed

theorem conjunctive_canvas_rule_witness:
  "map_option is_fingerprinting (result_category (snd (scan
      [(''fingerprinting:canvas'',
          [''name'' \<mapsto> JStr ''CanvasRenderingContext2D.fillText'', ''arguments'' \<mapsto> JArr [JStr ''x'']], []),
       (''fingerprinting:canvas'',
          [''name'' \<mapsto> JStr ''HTMLCanvasElement.toDataURL'', ''arguments'' \<mapsto> JArr [],
           ''retval'' \<mapsto> JStr ''data:image/png;base64,aGVsbG8=''], [])] [])) ''canvas'') = Some True
   \<and> map_option is_fingerprinting (result_category (snd (scan
      [(''fingerprinting:canvas'',
          [''name'' \<mapsto> JStr ''HTMLCanvasElement.toDataURL'', ''arguments'' \<mapsto> JArr [],
           ''retval'' \<mapsto> JStr ''data:image/png;base64,aGVsbG8=''], [])] [])) ''canvas'') = Some False
   \<and> map_option is_fingerprinting (result_category (snd (scan
      [(''fingerprinting:canvas'',
          [''name'' \<mapsto> JStr ''CanvasRenderingContext2D.fillText'', ''arguments'' \<mapsto> JArr [JStr ''x'']], [])]
      [])) ''canvas'') = Some False"
  using conjunctive_canvas_rule [of
      "[(''fingerprinting:canvas'',
          [''name'' \<mapsto> JStr ''CanvasRenderingContext2D.fillText'', ''arguments'' \<mapsto> JArr [JStr ''x'']], []),
       (''fingerprinting:canvas'',
          [''name'' \<mapsto> JStr ''HTMLCanvasElement.toDataURL'', ''arguments'' \<mapsto> JArr [],
           ''retval'' \<mapsto> JStr ''data:image/png;base64,aGVsbG8=''], [])]" "[]"]
    conjunctive_canvas_rule [of
      "[(''fingerprinting:canvas'',
          [''name'' \<mapsto> JStr ''HTMLCanvasElement.toDataURL'', ''arguments'' \<mapsto> JArr [],
           ''retval'' \<mapsto> JStr ''data:image/png;base64,aGVsbG8=''], [])]" "[]"]
    conjunctive_canvas_rule [of
      "[(''fingerprinting:canvas'',
          [''name'' \<mapsto> JStr ''CanvasRenderingContext2D.fillText'', ''arguments'' \<mapsto> JArr [JStr ''x'']], [])]"
      "[]"]
  by simp

text \<open>
  Claim C5. After a scan, whatever the events were, the audio, WebGL and misc entries
  of the result have \<open>is_fingerprinting\<close> false and no \<open>call_stack\<close>: their handlers never
  store a call stack, so finalization never marks them.
\<close>

theorem inert_categories:
  "map_option (\<lambda>c. (is_fingerprinting c, call_stack c))
      (result_category (snd (scan evs files)) ''audio'') = Some (False, None) \<and>
   map_option (\<lambda>c. (is_fingerprinting c, call_stack c))
      (result_category (snd (scan evs files)) ''webgl'') = Some (False, None) \<and>
   map_option (\<lambda>c. (is_fingerprinting c, call_stack c))
      (result_category (snd (scan evs files)) ''misc'') = Some (False, None)"
  using scan_facts[of evs files]
  by (simp add: result_category_keys deliver_frame init_fields)

theorem inert_categories_witness:
  "map_option (\<lambda>c. (is_fingerprinting c, call_stack c))
      (result_category (snd (scan
        [(''fingerprinting:audio'',
            [''name'' \<mapsto> JStr ''AudioContext.createAnalyser'', ''arguments'' \<mapsto> JArr []],
            [JStr ''wrapper'', JStr ''caller'']),
         (''fingerprinting:webgl'',
            [''name'' \<mapsto> JStr ''WebGLRenderingContext.getParameter'', ''arguments'' \<mapsto> JArr [JInt 7936]],
            [JStr ''wrapper'', JStr ''caller'']),
         (''fingerprinting:misc'',
            [''name'' \<mapsto> JStr ''userAgent'', ''value'' \<mapsto> JStr ''X''],
            [JStr ''wrapper'', JStr ''caller''])] [])) ''audio'') = Some (False, None) \<and>
   map_option (\<lambda>c. (is_fingerprinting c, call_stack c))
      (result_category (snd (scan
        [(''fingerprinting:audio'',
            [''name'' \<mapsto> JStr ''AudioContext.createAnalyser'', ''arguments'' \<mapsto> JArr []],
            [JStr ''wrapper'', JStr ''caller'']),
         (''fingerprinting:webgl'',
            [''name'' \<mapsto> JStr ''WebGLRenderingContext.getParameter'', ''arguments'' \<mapsto> JArr [JInt 7936]],
            [JStr ''wrapper'', JStr ''caller'']),
         (''fingerprinting:misc'',
            [''name'' \<mapsto> JStr ''userAgent'', ''value'' \<mapsto> JStr ''X''],
            [JStr ''wrapper'', JStr ''caller''])] [])) ''webgl'') = Some (False, None) \<and>
   map_option (\<lambda>c. (is_fingerprinting c, call_stack c))
      (result_category (snd (scan
        [(''fingerprinting:audio'',
            [''name'' \<mapsto> JStr ''AudioContext.createAnalyser'', ''arguments'' \<mapsto> JArr []],
            [JStr ''wrapper'', JStr ''caller'']),
         (''fingerprinting:webgl'',
            [''name'' \<mapsto> JStr ''WebGLRenderingContext.getParameter'', ''arguments'' \<mapsto> JArr [JInt 7936]],
            [JStr ''wrapper'', JStr ''caller'']),
         (''fingerprinting:misc'',
            [''name'' \<mapsto> JStr ''userAgent'', ''value'' \<mapsto> JStr ''X''],
            [JStr ''wrapper'', JStr ''caller''])] [])) ''misc'') = Some (False, None)"
  by (rule inert_categories)

section \<open>Canvas evidence\<close>

text \<open>
  Claim C3, as amended. Take a scan that ends in a positive canvas verdict: a
  text-drawing call was recorded, and the last \<open>toDataURL\<close> event returned the string
  \<open>url\<close>. Finalization raises nothing and \<open>is_fingerprinting\<close> is true. If \<open>url\<close> contains
  a comma, the part before the first comma contains \<open>base64\<close>, and the part after it
  decodes without error to at least one byte, then one file named
  \<open>fingerprinting_canvas\<close> holding exactly the decoded bytes is added to the result. In
  every other case (no comma, no \<open>base64\<close> in the header, a payload that does not decode,
  or one that decodes to zero bytes) the files of the result are unchanged.
\<close>

theorem canvas_evidence_decoding:
  assumes "\<exists>(lt', m', cs') \<in> set (earlier @ later). lt' = ''fingerprinting:canvas'' \<and>
             (m' ''name'' = Some (JStr ''CanvasRenderingContext2D.fillText'') \<or>
              m' ''name'' = Some (JStr ''CanvasRenderingContext2D.strokeText'')) \<and>
             m' ''arguments'' \<noteq> None"
    and "m ''name'' = Some (JStr ''HTMLCanvasElement.toDataURL'')"
    and "m ''arguments'' = Some a"
    and "m ''retval'' = Some (JStr url)"
    and "\<forall>(lt', m', cs') \<in> set later.
           lt' = ''fingerprinting:canvas'' \<longrightarrow>
           m' ''name'' \<noteq> Some (JStr ''HTMLCanvasElement.toDataURL'')"
  shows "fst (scan (earlier @ (''fingerprinting:canvas'', m, cs) # later) files) = None \<and>
         is_fingerprinting (canvas (snd (scan (earlier @ (''fingerprinting:canvas'', m, cs) # later) files))) \<and>
         result_files (snd (scan (earlier @ (''fingerprinting:canvas'', m, cs) # later) files)) =
           (if CHR '','' \<in> set url \<and> str_contains ''base64'' (takeWhile (\<lambda>c. c \<noteq> CHR '','') url)
            then (case b64decode (tl (dropWhile (\<lambda>c. c \<noteq> CHR '','') url)) of
                    Inr bs \<Rightarrow> if bs \<noteq> [] then files @ [(''fingerprinting_canvas'', bs)] else files
                  | Inl e \<Rightarrow> files)
            else files)"
  using scan_positive[OF assms, of cs files]
  by (auto simp: try_decode_cases split: sum.splits)

theorem canvas_evidence_decoding_witness:
  "fst (scan
      ([(''fingerprinting:canvas'',
          [''name'' \<mapsto> JStr ''CanvasRenderingContext2D.fillText'', ''arguments'' \<mapsto> JArr [JStr ''x'']], [])]
       @ (''fingerprinting:canvas'',
          [''name'' \<mapsto> JStr ''HTMLCanvasElement.toDataURL'', ''arguments'' \<mapsto> JArr [],
           ''retval'' \<mapsto> JStr ''data:image/png;base64,aGVsbG8=''], []) # []) []) = None
   \<and> is_fingerprinting (canvas (snd (scan
      ([(''fingerprinting:canvas'',
          [''name'' \<mapsto> JStr ''CanvasRenderingContext2D.fillText'', ''arguments'' \<mapsto> JArr [JStr ''x'']], [])]
       @ (''fingerprinting:canvas'',
          [''name'' \<mapsto> JStr ''HTMLCanvasElement.toDataURL'', ''arguments'' \<mapsto> JArr [],
           ''retval'' \<mapsto> JStr ''data:image/png;base64,aGVsbG8=''], []) # []) [])))
   \<and> result_files (snd (scan
      ([(''fingerprinting:canvas'',
          [''name'' \<mapsto> JStr ''CanvasRenderingContext2D.fillText'', ''arguments'' \<mapsto> JArr [JStr ''x'']], [])]
       @ (''fingerprinting:canvas'',
          [''name'' \<mapsto> JStr ''HTMLCanvasElement.toDataURL'', ''arguments'' \<mapsto> JArr [],
           ''retval'' \<mapsto> JStr ''data:image/png;base64,aGVsbG8=''], []) # []) []))
      = [(''fingerprinting_canvas'', [104, 101, 108, 108, 111])]
   \<and> result_files (snd (scan
      ([(''fingerprinting:canvas'',
          [''name'' \<mapsto> JStr ''CanvasRenderingContext2D.fillText'', ''arguments'' \<mapsto> JArr [JStr ''x'']], [])]
       @ (''fingerprinting:canvas'',
          [''name'' \<mapsto> JStr ''HTMLCanvasElement.toDataURL'', ''arguments'' \<mapsto> JArr [],
           ''retval'' \<mapsto> JStr ''not-a-data-url''], []) # []) [])) = []
   \<and> result_files (snd (scan
      ([(''fingerprinting:canvas'',
          [''name'' \<mapsto> JStr ''CanvasRenderingContext2D.fillText'', ''arguments'' \<mapsto> JArr [JStr ''x'']], [])]
       @ (''fingerprinting:canvas'',
          [''name'' \<mapsto> JStr ''HTMLCanvasElement.toDataURL'', ''arguments'' \<mapsto> JArr [],
           ''retval'' \<mapsto> JStr ''data:text/plain,hello''], []) # []) [])) = []"
  using canvas_evidence_decoding [where
      earlier = "[(''fingerprinting:canvas'',
          [''name'' \<mapsto> JStr ''CanvasRenderingContext2D.fillText'', ''arguments'' \<mapsto> JArr [JStr ''x'']], [])]"
      and later = "[]"
      and m = "[''name'' \<mapsto> JStr ''HTMLCanvasElement.toDataURL'', ''arguments'' \<mapsto> JArr [],
           ''retval'' \<mapsto> JStr ''data:image/png;base64,aGVsbG8='']"
      and a = "JArr []" and url = "''data:image/png;base64,aGVsbG8=''" and cs = "[]" and files = "[]"]
    canvas_evidence_decoding [where
      earlier = "[(''fingerprinting:canvas'',
          [''name'' \<mapsto> JStr ''CanvasRenderingContext2D.fillText'', ''arguments'' \<mapsto> JArr [JStr ''x'']], [])]"
      and later = "[]"
      and m = "[''name'' \<mapsto> JStr ''HTMLCanvasElement.toDataURL'', ''arguments'' \<mapsto> JArr [],
           ''retval'' \<mapsto> JStr ''not-a-data-url'']"
      and a = "JArr []" and url = "''not-a-data-url''" and cs = "[]" and files = "[]"]
    canvas_evidence_decoding [where
      earlier = "[(''fingerprinting:canvas'',
          [''name'' \<mapsto> JStr ''CanvasRenderingContext2D.fillText'', ''arguments'' \<mapsto> JArr [JStr ''x'']], [])]"
      and later = "[]"
      and m = "[''name'' \<mapsto> JStr ''HTMLCanvasElement.toDataURL'', ''arguments'' \<mapsto> JArr [],
           ''retval'' \<mapsto> JStr ''data:text/plain,hello'']"
      and a = "JArr []" and url = "''data:text/plain,hello''" and cs = "[]" and files = "[]"]
  by (simp add: b64decode_def b64_value_def)

text \<open>
  The claim as first stated promises an artifact whenever there is a comma and the header
  contains \<open>base64\<close>. For the candidate \<open>data:image/jpeg;base64,\<close> both hold and the
  payload decodes (to zero bytes), the verdict is positive, and yet no file is added:
  \<open>if content:\<close> skips empty content.
\<close>

theorem canvas_evidence_empty_payload_counterexample:
  "is_fingerprinting (canvas (snd (scan
      ([(''fingerprinting:canvas'',
          [''name'' \<mapsto> JStr ''CanvasRenderingContext2D.strokeText'', ''arguments'' \<mapsto> JArr [JStr ''x'']], [])]
       @ (''fingerprinting:canvas'',
          [''name'' \<mapsto> JStr ''HTMLCanvasElement.toDataURL'', ''arguments'' \<mapsto> JArr [],
           ''retval'' \<mapsto> JStr ''data:image/jpeg;base64,''], []) # []) [])))
   \<and> CHR '','' \<in> set ''data:image/jpeg;base64,''
   \<and> str_contains ''base64'' (takeWhile (\<lambda>c. c \<noteq> CHR '','') ''data:image/jpeg;base64,'')
   \<and> b64decode (tl (dropWhile (\<lambda>c. c \<noteq> CHR '','') ''data:image/jpeg;base64,'')) = Inr []
   \<and> result_files (snd (scan
      ([(''fingerprinting:canvas'',
          [''name'' \<mapsto> JStr ''CanvasRenderingContext2D.strokeText'', ''arguments'' \<mapsto> JArr [JStr ''x'']], [])]
       @ (''fingerprinting:canvas'',
          [''name'' \<mapsto> JStr ''HTMLCanvasElement.toDataURL'', ''arguments'' \<mapsto> JArr [],
           ''retval'' \<mapsto> JStr ''data:image/jpeg;base64,''], []) # []) [])) = []"
  using scan_positive [where
      earlier = "[(''fingerprinting:canvas'',
          [''name'' \<mapsto> JStr ''CanvasRenderingContext2D.strokeText'', ''arguments'' \<mapsto> JArr [JStr ''x'']], [])]"
      and later = "[]"
      and m = "[''name'' \<mapsto> JStr ''HTMLCanvasElement.toDataURL'', ''arguments'' \<mapsto> JArr [],
           ''retval'' \<mapsto> JStr ''data:image/jpeg;base64,'']"
      and a = "JArr []" and url = "''data:image/jpeg;base64,''" and cs = "[]" and files = "[]"]
  by (simp add: try_decode_cases b64decode_def)

text \<open>
  Claim C10. In a scan with a positive canvas verdict whose last export returned a
  string with a comma, \<open>base64\<close> in its header and nothing after the first comma,
  decoding the payload succeeds with zero bytes, finalization raises nothing,
  \<open>is_fingerprinting\<close> is true, and no file is added to the result.
\<close>

theorem empty_payload_no_artifact:
  assumes "\<exists>(lt', m', cs') \<in> set (earlier @ later). lt' = ''fingerprinting:canvas'' \<and>
             (m' ''name'' = Some (JStr ''CanvasRenderingContext2D.fillText'') \<or>
              m' ''name'' = Some (JStr ''CanvasRenderingContext2D.strokeText'')) \<and>
             m' ''arguments'' \<noteq> None"
    and "m ''name'' = Some (JStr ''HTMLCanvasElement.toDataURL'')"
    and "m ''arguments'' = Some a"
    and "m ''retval'' = Some (JStr url)"
    and "\<forall>(lt', m', cs') \<in> set later.
           lt' = ''fingerprinting:canvas'' \<longrightarrow>
           m' ''name'' \<noteq> Some (JStr ''HTMLCanvasElement.toDataURL'')"
    and "CHR '','' \<in> set url"
    and "str_contains ''base64'' (takeWhile (\<lambda>c. c \<noteq> CHR '','') url)"
    and "tl (dropWhile (\<lambda>c. c \<noteq> CHR '','') url) = []"
  shows "b64decode (tl (dropWhile (\<lambda>c. c \<noteq> CHR '','') url)) = Inr [] \<and>
         fst (scan (earlier @ (''fingerprinting:canvas'', m, cs) # later) files) = None \<and>
         is_fingerprinting (canvas (snd (scan (earlier @ (''fingerprinting:canvas'', m, cs) # later) files))) \<and>
         result_files (snd (scan (earlier @ (''fingerprinting:canvas'', m, cs) # later) files)) = files"
  using scan_positive[OF assms(1-5), of cs files] assms(6-8)
  by (simp add: try_decode_cases b64decode_def)

theorem empty_payload_no_artifact_witness:
  "b64decode (tl (dropWhile (\<lambda>c. c \<noteq> CHR '','') ''data:image/png;base64,'')) = Inr [] \<and>
   fst (scan
      ([(''fingerprinting:canvas'',
          [''name'' \<mapsto> JStr ''CanvasRenderingContext2D.fillText'', ''arguments'' \<mapsto> JArr [JStr ''x'']], [])]
       @ (''fingerprinting:canvas'',
          [''name'' \<mapsto> JStr ''HTMLCanvasElement.toDataURL'', ''arguments'' \<mapsto> JArr [],
           ''retval'' \<mapsto> JStr ''data:image/png;base64,''], []) # []) []) = None
   \<and> is_fingerprinting (canvas (snd (scan
      ([(''fingerprinting:canvas'',
          [''name'' \<mapsto> JStr ''CanvasRenderingContext2D.fillText'', ''arguments'' \<mapsto> JArr [JStr ''x'']], [])]
       @ (''fingerprinting:canvas'',
          [''name'' \<mapsto> JStr ''HTMLCanvasElement.toDataURL'', ''arguments'' \<mapsto> JArr [],
           ''retval'' \<mapsto> JStr ''data:image/png;base64,''], []) # []) [])))
   \<and> result_files (snd (scan
      ([(''fingerprinting:canvas'',
          [''name'' \<mapsto> JStr ''CanvasRenderingContext2D.fillText'', ''arguments'' \<mapsto> JArr [JStr ''x'']], [])]
       @ (''fingerprinting:canvas'',
          [''name'' \<mapsto> JStr ''HTMLCanvasElement.toDataURL'', ''arguments'' \<mapsto> JArr [],
           ''retval'' \<mapsto> JStr ''data:image/png;base64,''], []) # []) [])) = []"
  using empty_payload_no_artifact [where
      earlier = "[(''fingerprinting:canvas'',
          [''name'' \<mapsto> JStr ''CanvasRenderingContext2D.fillText'', ''arguments'' \<mapsto> JArr [JStr ''x'']], [])]"
      and later = "[]"
      and m = "[''name'' \<mapsto> JStr ''HTMLCanvasElement.toDataURL'', ''arguments'' \<mapsto> JArr [],
           ''retval'' \<mapsto> JStr ''data:image/png;base64,'']"
      and a = "JArr []" and url = "''data:image/png;base64,''" and cs = "[]" and files = "[]"]
  by simp

section \<open>The audio, WebGL and misc aggregators\<close>

text \<open>
  Claim C4. A misc message whose \<open>name\<close> is one of \<open>userAgent\<close>, \<open>language\<close>,
  \<open>languages\<close>, \<open>colorDepth\<close> (and which carries the \<open>value\<close> it is stored with) is
  stored as \<open>{property: name, value: value}\<close>. A misc message with any other name that
  contains \<open>arguments\<close> is stored as \<open>{method: name, arguments: arguments}\<close>. In both
  cases nothing is raised, and the record is appended unless an equal one is already in
  the list. A misc message with another name and no \<open>arguments\<close> is rejected: the handler
  raises (\<open>UnboundLocalError\<close>, since \<open>calldict\<close> was never bound) and the state is left
  as it was, so nothing is stored.
\<close>

theorem misc_shapes:
  "(m ''name'' = Some n \<and>
    n \<in> {JStr ''userAgent'', JStr ''language'', JStr ''languages'', JStr ''colorDepth''} \<and>
    m ''value'' = Some v \<longrightarrow>
      receive_misc_log m cs st =
        (None, st\<lparr>misc := (misc st)\<lparr>calls :=
           (if py_in (JObj [(''property'', n), (''value'', v)]) (calls (misc st))
            then calls (misc st)
            else calls (misc st) @ [JObj [(''property'', n), (''value'', v)]])\<rparr>\<rparr>)) \<and>
   (m ''name'' = Some n \<and>
    n \<notin> {JStr ''userAgent'', JStr ''language'', JStr ''languages'', JStr ''colorDepth''} \<and>
    m ''arguments'' = Some a \<longrightarrow>
      receive_misc_log m cs st =
        (None, st\<lparr>misc := (misc st)\<lparr>calls :=
           (if py_in (JObj [(''method'', n), (''arguments'', a)]) (calls (misc st))
            then calls (misc st)
            else calls (misc st) @ [JObj [(''method'', n), (''arguments'', a)]])\<rparr>\<rparr>)) \<and>
   (m ''name'' = Some n \<and>
    n \<notin> {JStr ''userAgent'', JStr ''language'', JStr ''languages'', JStr ''colorDepth''} \<and>
    m ''arguments'' = None \<longrightarrow>
      receive_misc_log m cs st = (Some UnboundLocalError, st))"
proof -
  have tracked: "set listofcheckedproperties =
      {JStr ''userAgent'', JStr ''language'', JStr ''languages'', JStr ''colorDepth''}"
    by (simp add: listofcheckedproperties_def)
  show ?thesis
    using misc_calldict_property[of m n v] misc_calldict_method[of m n a]
      misc_calldict_neither[of m n]
    unfolding tracked
    by (auto simp: receive_misc_log_def propdict_def calldict_def)
qed

theorem misc_shapes_witness:
  "receive_misc_log [''name'' \<mapsto> JStr ''userAgent'', ''value'' \<mapsto> JStr ''X''] [] (init []) =
     (None, (init [])\<lparr>misc := (misc (init []))\<lparr>calls :=
        [JObj [(''property'', JStr ''userAgent''), (''value'', JStr ''X'')]]\<rparr>\<rparr>)
   \<and> receive_misc_log
       [''name'' \<mapsto> JStr ''setItem'', ''arguments'' \<mapsto> JArr [JStr ''k'', JStr ''v'']] [] (init []) =
     (None, (init [])\<lparr>misc := (misc (init []))\<lparr>calls :=
        [JObj [(''method'', JStr ''setItem''), (''arguments'', JArr [JStr ''k'', JStr ''v''])]]\<rparr>\<rparr>)
   \<and> receive_misc_log [''name'' \<mapsto> JStr ''setItem'', ''retval'' \<mapsto> JNull] [] (init []) =
     (Some UnboundLocalError, init [])"
  using misc_shapes [of "[''name'' \<mapsto> JStr ''userAgent'', ''value'' \<mapsto> JStr ''X'']"
          "JStr ''userAgent''" "JStr ''X''" "[]" "init []" JNull]
        misc_shapes [of "[''name'' \<mapsto> JStr ''setItem'', ''arguments'' \<mapsto> JArr [JStr ''k'', JStr ''v'']]"
          "JStr ''setItem''" JNull "[]" "init []" "JArr [JStr ''k'', JStr ''v'']"]
        misc_shapes [of "[''name'' \<mapsto> JStr ''setItem'', ''retval'' \<mapsto> JNull]"
          "JStr ''setItem''" JNull "[]" "init []" JNull]
  by (simp add: init_fields py_in_def)

text \<open>
  Claim C6, as amended. Equality of records is Python's \<open>==\<close>. For audio, WebGL and
  misc (for misc, a message whose name is not a tracked accessor name, which is what
  makes it a method message): after any events, delivering the same
  \<open>(method, arguments)\<close> message \<open>N \<ge> 1\<close> times to a scan that started fresh leaves
  exactly one record equal to that message's record in the category's \<open>calls\<close>; two
  messages with the same method whose argument sequences are not equal under \<open>==\<close>,
  delivered to a fresh extractor, leave the two records, in order; and a delivery
  appends its record if and only if no equal record is in the list.
\<close>

theorem dedup_under_python_equality:
  assumes "m ''name'' = Some n" and "m ''arguments'' = Some a" and "1 \<le> N"
  shows
   "(length (filter (py_eq (calldict n a))
       (calls (audio (deliver (evs @ replicate N (''fingerprinting:audio'', m, cs)) (init files))))) = 1 \<and>
     (m' ''name'' = Some n \<and> m' ''arguments'' = Some a' \<and> \<not> py_eq a a' \<longrightarrow>
        calls (audio (deliver [(''fingerprinting:audio'', m, cs), (''fingerprinting:audio'', m', cs')]
                        (init files))) = [calldict n a, calldict n a']) \<and>
     calls (audio (snd (receive_log ''fingerprinting:audio'' m cs st))) =
       (if py_in (calldict n a) (calls (audio st)) then calls (audio st)
        else calls (audio st) @ [calldict n a])) \<and>
    (length (filter (py_eq (calldict n a))
       (calls (webgl (deliver (evs @ replicate N (''fingerprinting:webgl'', m, cs)) (init files))))) = 1 \<and>
     (m' ''name'' = Some n \<and> m' ''arguments'' = Some a' \<and> \<not> py_eq a a' \<longrightarrow>
        calls (webgl (deliver [(''fingerprinting:webgl'', m, cs), (''fingerprinting:webgl'', m', cs')]
                        (init files))) = [calldict n a, calldict n a']) \<and>
     calls (webgl (snd (receive_log ''fingerprinting:webgl'' m cs st))) =
       (if py_in (calldict n a) (calls (webgl st)) then calls (webgl st)
        else calls (webgl st) @ [calldict n a])) \<and>
    (n \<notin> {JStr ''userAgent'', JStr ''language'', JStr ''languages'', JStr ''colorDepth''} \<longrightarrow>
     length (filter (py_eq (calldict n a))
       (calls (misc (deliver (evs @ replicate N (''fingerprinting:misc'', m, cs)) (init files))))) = 1 \<and>
     (m' ''name'' = Some n \<and> m' ''arguments'' = Some a' \<and> \<not> py_eq a a' \<longrightarrow>
        calls (misc (deliver [(''fingerprinting:misc'', m, cs), (''fingerprinting:misc'', m', cs')]
                        (init files))) = [calldict n a, calldict n a']) \<and>
     calls (misc (snd (receive_log ''fingerprinting:misc'' m cs st))) =
       (if py_in (calldict n a) (calls (misc st)) then calls (misc st)
        else calls (misc st) @ [calldict n a]))"
proof -
  have tracked: "set listofcheckedproperties =
      {JStr ''userAgent'', JStr ''language'', JStr ''languages'', JStr ''colorDepth''}"
    by (simp add: listofcheckedproperties_def)
  have a1: "length (filter (py_eq (calldict n a))
       (calls (audio (deliver (evs @ replicate N (''fingerprinting:audio'', m, cs)) (init files))))) = 1"
    by (rule dedup_count[where f = "\<lambda>st. calls (audio st)"])
       (simp_all add: audio_step audio_hit[OF assms(1,2)] init_fields assms(3)[simplified])
  have a2: "calls (audio (deliver [(''fingerprinting:audio'', m, cs), (''fingerprinting:audio'', m', cs')]
                        (init files))) = [calldict n a, calldict n a']"
    if "m' ''name'' = Some n" "m' ''arguments'' = Some a'" "\<not> py_eq a a'"
    using that assms(1,2) two_records[OF that(3), of n]
    by (simp add: receive_log_audio_calls init_fields py_in_def)
  have a3: "calls (audio (snd (receive_log ''fingerprinting:audio'' m cs st))) =
       (if py_in (calldict n a) (calls (audio st)) then calls (audio st)
        else calls (audio st) @ [calldict n a])"
    using assms(1,2) by (simp add: receive_log_audio_calls)
  have w1: "length (filter (py_eq (calldict n a))
       (calls (webgl (deliver (evs @ replicate N (''fingerprinting:webgl'', m, cs)) (init files))))) = 1"
    by (rule dedup_count[where f = "\<lambda>st. calls (webgl st)"])
       (simp_all add: webgl_step webgl_hit[OF assms(1,2)] init_fields assms(3)[simplified])
  have w2: "calls (webgl (deliver [(''fingerprinting:webgl'', m, cs), (''fingerprinting:webgl'', m', cs')]
                        (init files))) = [calldict n a, calldict n a']"
    if "m' ''name'' = Some n" "m' ''arguments'' = Some a'" "\<not> py_eq a a'"
    using that assms(1,2) two_records[OF that(3), of n]
    by (simp add: receive_log_webgl_calls init_fields py_in_def)
  have w3: "calls (webgl (snd (receive_log ''fingerprinting:webgl'' m cs st))) =
       (if py_in (calldict n a) (calls (webgl st)) then calls (webgl st)
        else calls (webgl st) @ [calldict n a])"
    using assms(1,2) by (simp add: receive_log_webgl_calls)
  have m1: "length (filter (py_eq (calldict n a))
       (calls (misc (deliver (evs @ replicate N (''fingerprinting:misc'', m, cs)) (init files))))) = 1"
    if "n \<notin> set listofcheckedproperties"
    by (rule dedup_count[where f = "\<lambda>st. calls (misc st)"])
       (simp_all add: misc_step misc_hit[OF misc_calldict_method[OF assms(1) that assms(2)]]
          init_fields assms(3)[simplified])
  have m2: "calls (misc (deliver [(''fingerprinting:misc'', m, cs), (''fingerprinting:misc'', m', cs')]
                        (init files))) = [calldict n a, calldict n a']"
    if "n \<notin> set listofcheckedproperties"
       "m' ''name'' = Some n" "m' ''arguments'' = Some a'" "\<not> py_eq a a'"
    using two_records[OF that(4), of n]
    by (simp add: receive_log_misc_calls init_fields py_in_def
          misc_calldict_method[OF assms(1) that(1) assms(2)]
          misc_calldict_method[OF that(2) that(1) that(3)])
  have m3: "calls (misc (snd (receive_log ''fingerprinting:misc'' m cs st))) =
       (if py_in (calldict n a) (calls (misc st)) then calls (misc st)
        else calls (misc st) @ [calldict n a])"
    if "n \<notin> set listofcheckedproperties"
    by (simp add: receive_log_misc_calls misc_calldict_method[OF assms(1) that assms(2)])
  show ?thesis
  proof (intro conjI impI, goal_cases)
    case 1
    show ?case by (rule a1)
  next
    case 2
    then show ?case by (intro a2) simp_all
  next
    case 3
    show ?case by (rule a3)
  next
    case 4
    show ?case by (rule w1)
  next
    case 5
    then show ?case by (intro w2) simp_all
  next
    case 6
    show ?case by (rule w3)
  next
    case 7
    then show ?case by (intro m1) (simp add: tracked)
  next
    case 8
    then show ?case by (intro m2) (simp_all add: tracked)
  next
    case 9
    then show ?case by (intro m3) (simp add: tracked)
  qed
qed

theorem dedup_under_python_equality_witness:
  "length (filter (py_eq (calldict (JStr ''getParameter'') (JArr [JInt 1])))
       (calls (audio (deliver ([] @ replicate 3 (''fingerprinting:audio'',
            [''name'' \<mapsto> JStr ''getParameter'', ''arguments'' \<mapsto> JArr [JInt 1]], []))
          (init []))))) = 1
   \<and> calls (audio (deliver
        [(''fingerprinting:audio'', [''name'' \<mapsto> JStr ''getParameter'', ''arguments'' \<mapsto> JArr [JInt 1]], []),
         (''fingerprinting:audio'', [''name'' \<mapsto> JStr ''getParameter'', ''arguments'' \<mapsto> JArr [JInt 2]], [])]
        (init []))) =
       [calldict (JStr ''getParameter'') (JArr [JInt 1]), calldict (JStr ''getParameter'') (JArr [JInt 2])]
   \<and> calls (audio (snd (receive_log ''fingerprinting:audio''
        [''name'' \<mapsto> JStr ''getParameter'', ''arguments'' \<mapsto> JArr [JInt 1]] [] (init [])))) =
       [calldict (JStr ''getParameter'') (JArr [JInt 1])]
   \<and> length (filter (py_eq (calldict (JStr ''getParameter'') (JArr [JInt 1])))
       (calls (webgl (deliver ([] @ replicate 3 (''fingerprinting:webgl'',
            [''name'' \<mapsto> JStr ''getParameter'', ''arguments'' \<mapsto> JArr [JInt 1]], []))
          (init []))))) = 1
   \<and> calls (webgl (deliver
        [(''fingerprinting:webgl'', [''name'' \<mapsto> JStr ''getParameter'', ''arguments'' \<mapsto> JArr [JInt 1]], []),
         (''fingerprinting:webgl'', [''name'' \<mapsto> JStr ''getParameter'', ''arguments'' \<mapsto> JArr [JInt 2]], [])]
        (init []))) =
       [calldict (JStr ''getParameter'') (JArr [JInt 1]), calldict (JStr ''getParameter'') (JArr [JInt 2])]
   \<and> calls (webgl (snd (receive_log ''fingerprinting:webgl''
        [''name'' \<mapsto> JStr ''getParameter'', ''arguments'' \<mapsto> JArr [JInt 1]] [] (init [])))) =
       [calldict (JStr ''getParameter'') (JArr [JInt 1])]
   \<and> length (filter (py_eq (calldict (JStr ''getParameter'') (JArr [JInt 1])))
       (calls (misc (deliver ([] @ replicate 3 (''fingerprinting:misc'',
            [''name'' \<mapsto> JStr ''getParameter'', ''arguments'' \<mapsto> JArr [JInt 1]], []))
          (init []))))) = 1
   \<and> calls (misc (deliver
        [(''fingerprinting:misc'', [''name'' \<mapsto> JStr ''getParameter'', ''arguments'' \<mapsto> JArr [JInt 1]], []),
         (''fingerprinting:misc'', [''name'' \<mapsto> JStr ''getParameter'', ''arguments'' \<mapsto> JArr [JInt 2]], [])]
        (init []))) =
       [calldict (JStr ''getParameter'') (JArr [JInt 1]), calldict (JStr ''getParameter'') (JArr [JInt 2])]
   \<and> calls (misc (snd (receive_log ''fingerprinting:misc''
        [''name'' \<mapsto> JStr ''getParameter'', ''arguments'' \<mapsto> JArr [JInt 1]] [] (init [])))) =
       [calldict (JStr ''getParameter'') (JArr [JInt 1])]"
  using dedup_under_python_equality [where
      m = "[''name'' \<mapsto> JStr ''getParameter'', ''arguments'' \<mapsto> JArr [JInt 1]]"
      and n = "JStr ''getParameter''" and a = "JArr [JInt 1]" and N = 3
      and m' = "[''name'' \<mapsto> JStr ''getParameter'', ''arguments'' \<mapsto> JArr [JInt 2]]"
      and a' = "JArr [JInt 2]" and evs = "[]" and cs = "[]" and cs' = "[]" and files = "[]"
      and st = "init []"]
  by (simp add: init_fields py_in_def)

text \<open>
  As first stated, the claim promises two records for any two different argument
  sequences. \<open>[1]\<close> and \<open>[True]\<close> are different sequences, but \<open>1 == True\<close> in Python, so
  the second record is found in the list and only the first is kept.
\<close>

theorem dedup_bool_int_counterexample:
  "JArr [JInt 1] \<noteq> JArr [JBool True] \<and>
   calls (webgl (deliver
      [(''fingerprinting:webgl'',
          [''name'' \<mapsto> JStr ''WebGLRenderingContext.getParameter'', ''arguments'' \<mapsto> JArr [JInt 1]], []),
       (''fingerprinting:webgl'',
          [''name'' \<mapsto> JStr ''WebGLRenderingContext.getParameter'', ''arguments'' \<mapsto> JArr [JBool True]], [])]
      (init []))) =
     [calldict (JStr ''WebGLRenderingContext.getParameter'') (JArr [JInt 1])]"
  by (simp add: receive_log_webgl_calls init_fields py_in_def py_eq_calldict)

section \<open>Instrumentation\<close>

text \<open>
  Claim C1. The wrapper built by \<open>instrumentFunction\<close> should call the original with the
  same receiver and arguments and return what the original returns. It does call the
  original with the same receiver and arguments, and it logs the call with the original's
  return value afterwards; but it returns \<open>undefined\<close>. At an original \<open>toDataURL\<close> that
  returns a data URL, the wrapper's value is \<open>undefined\<close>, not the data URL, while the log
  event holds the data URL.
\<close>

theorem instrumentFunction_drops_retval:
  "fst (instrumentFunction (\<lambda>log_type msg w. w @ [(log_type, msg)])
          (\<lambda>this arguments w. (Value (JStr ''data:image/png;base64,aGVsbG8=''), w))
          ''HTMLCanvasElement.toDataURL'' ''fingerprinting:canvas''
          (Value (JStr ''canvas'')) [Value (JStr ''image/png'')] []) = Undefined
   \<and> fst ((\<lambda>this arguments w. (Value (JStr ''data:image/png;base64,aGVsbG8=''), w))
          (Value (JStr ''canvas'')) [Value (JStr ''image/png'')] ([] :: (string \<times> log_message) list))
       = Value (JStr ''data:image/png;base64,aGVsbG8='')
   \<and> snd (instrumentFunction (\<lambda>log_type msg w. w @ [(log_type, msg)])
          (\<lambda>this arguments w. (Value (JStr ''data:image/png;base64,aGVsbG8=''), w))
          ''HTMLCanvasElement.toDataURL'' ''fingerprinting:canvas''
          (Value (JStr ''canvas'')) [Value (JStr ''image/png'')] []) =
       [(''fingerprinting:canvas'',
         FunctionMessage ''HTMLCanvasElement.toDataURL'' [Value (JStr ''image/png'')]
           (Value (JStr ''data:image/png;base64,aGVsbG8='')))]"
  by (simp add: instrumentFunction_def)

end
